theory Spec2Isabelle
  imports Main "HOL-Library.Word" "HOL-Library.Sublist"
begin

unbundle bit_operations_syntax

section \<open>Basic data: bytes, buffers and JavaScript strings\<close>

text \<open>
  A Node \<open>Buffer\<close> is a sequence of bytes; a JavaScript string is a sequence of
  16-bit code units. Numbers that the code keeps as unsigned 32-bit values
  (\<open>>>> 0\<close>, \<open>Uint32Array\<close>) are \<open>32 word\<close>.
\<close>

type_synonym byte = "8 word"
type_synonym uint32 = "32 word"
type_synonym buffer = "byte list"
type_synonym jsstring = "16 word list"

text \<open>A string literal of the source, all of whose characters are ASCII.\<close>

definition js :: "string \<Rightarrow> jsstring" where
  "js s = map (\<lambda>c. of_nat (of_char c)) s"

text \<open>The bytes of an ASCII literal (used for test vectors).\<close>

definition ascii :: "string \<Rightarrow> buffer" where
  "ascii s = map (\<lambda>c. of_nat (of_char c)) s"

text \<open>
  Exceptions of the JavaScript runtime that the modelled code can raise: a plain
  \<open>Error\<close> with its message, the \<open>RangeError\<close> of an out-of-range buffer write and
  the \<open>URIError\<close> of \<open>encodeURIComponent\<close>. A function that can throw returns
  \<open>js_error + 'a\<close>, with \<open>Inl\<close> for the exception.
\<close>

datatype js_error = Error jsstring | RangeError | URIError

subsection \<open>String primitives of the runtime\<close>

text \<open>
  \<open>String.prototype.trim\<close> removes white space and line terminators from both ends:
  TAB, LF, VT, FF, CR, SPACE, NBSP, U+1680, U+2000 to U+200A, LS, PS, U+202F, U+205F,
  U+3000 and the byte order mark. The same set is the class \<open>\s\<close> of regular
  expressions.
\<close>

definition is_js_whitespace :: "16 word \<Rightarrow> bool" where
  "is_js_whitespace c \<longleftrightarrow>
     c \<in> {0x09, 0x0A, 0x0B, 0x0C, 0x0D, 0x20, 0xA0, 0x1680, 0x2028, 0x2029, 0x202F, 0x205F,
          0x3000, 0xFEFF}
     \<or> (0x2000 \<le> c \<and> c \<le> 0x200A)"

definition js_trim :: "jsstring \<Rightarrow> jsstring" where
  "js_trim s = rev (dropWhile is_js_whitespace (rev (dropWhile is_js_whitespace s)))"

text \<open>
  \<open>x || d\<close> for a string \<open>x\<close> that may be \<open>undefined\<close>: the default is taken when
  \<open>x\<close> is missing or empty.
\<close>

definition js_or :: "jsstring option \<Rightarrow> jsstring \<Rightarrow> jsstring" where
  "js_or x d = (case x of None \<Rightarrow> d | Some s \<Rightarrow> if s = [] then d else s)"

text \<open>\<open>Array.prototype.join\<close> on an array of strings.\<close>

fun js_join :: "jsstring \<Rightarrow> jsstring list \<Rightarrow> jsstring" where
  "js_join sep [] = []"
| "js_join sep [x] = x"
| "js_join sep (x # y # ys) = x @ sep @ js_join sep (y # ys)"

text \<open>\<open>s.replace(/c/g, r)\<close> for a single character \<open>c\<close>.\<close>

definition replace_char :: "16 word \<Rightarrow> jsstring \<Rightarrow> jsstring \<Rightarrow> jsstring" where
  "replace_char c r s = concat (map (\<lambda>x. if x = c then r else [x]) s)"

text \<open>
  \<open>Buffer.from(s, "utf8")\<close>: the string is read as UTF-16; a surrogate pair is one
  code point, a surrogate on its own is replaced by U+FFFD.
\<close>

definition utf8_code_point :: "nat \<Rightarrow> buffer" where
  "utf8_code_point cp =
     (if cp < 0x80 then [of_nat cp]
      else if cp < 0x800 then [of_nat (0xC0 + cp div 64), of_nat (0x80 + cp mod 64)]
      else if cp < 0x10000 then
        [of_nat (0xE0 + cp div 4096), of_nat (0x80 + cp div 64 mod 64), of_nat (0x80 + cp mod 64)]
      else
        [of_nat (0xF0 + cp div 262144), of_nat (0x80 + cp div 4096 mod 64),
         of_nat (0x80 + cp div 64 mod 64), of_nat (0x80 + cp mod 64)])"

definition is_high_surrogate :: "16 word \<Rightarrow> bool" where
  "is_high_surrogate c \<longleftrightarrow> 0xD800 \<le> c \<and> c \<le> 0xDBFF"

definition is_low_surrogate :: "16 word \<Rightarrow> bool" where
  "is_low_surrogate c \<longleftrightarrow> 0xDC00 \<le> c \<and> c \<le> 0xDFFF"

definition utf8_unit :: "16 word \<Rightarrow> buffer" where
  "utf8_unit c =
     (if is_high_surrogate c \<or> is_low_surrogate c then utf8_code_point 0xFFFD
      else utf8_code_point (unat c))"

fun utf8_encode :: "jsstring \<Rightarrow> buffer" where
  "utf8_encode [] = []"
| "utf8_encode [c] = utf8_unit c"
| "utf8_encode (c # d # cs) =
     (if is_high_surrogate c \<and> is_low_surrogate d
      then utf8_code_point (0x10000 + (unat c - 0xD800) * 0x400 + (unat d - 0xDC00))
           @ utf8_encode cs
      else utf8_unit c @ utf8_encode (d # cs))"

section \<open>Checksum: \<open>crc32\<close> and \<open>CRC_TABLE\<close> (epub.ts)\<close>

text \<open>
  \<open>CRC_TABLE\<close>: for every \<open>i < 256\<close> the entry is obtained from \<open>i\<close> by eight rounds of
  \<open>c = c & 1 ? 0xedb88320 ^ (c >>> 1) : c >>> 1\<close>, stored in a \<open>Uint32Array\<close>.
\<close>

definition crc_table_round :: "uint32 \<Rightarrow> uint32" where
  "crc_table_round c = (if c AND 1 \<noteq> 0 then 0xedb88320 XOR drop_bit 1 c else drop_bit 1 c)"

definition crc_table_entry :: "nat \<Rightarrow> uint32" where
  "crc_table_entry i = (crc_table_round ^^ 8) (of_nat i)"

definition CRC_TABLE :: "uint32 list" where
  "CRC_TABLE = map crc_table_entry [0..<256]"

text \<open>
  The body of the loop of \<open>crc32\<close>:
  \<open>index = (crc ^ byte) & 0xff; crc = (crc >>> 8) ^ CRC_TABLE[index]\<close>.
  The index is below 256, so the table read is always in range.
\<close>

definition crc32_step :: "uint32 \<Rightarrow> byte \<Rightarrow> uint32" where
  "crc32_step crc b =
     (let index = unat ((crc XOR ucast b) AND 0xff)
      in drop_bit 8 crc XOR CRC_TABLE ! index)"

definition crc32 :: "buffer \<Rightarrow> uint32" where
  "crc32 buf = foldl crc32_step 0xffffffff buf XOR 0xffffffff"

subsection \<open>The reference CRC-32, following the specification's words\<close>

text \<open>
  The IEEE 802.3 / ZIP CRC-32 in its bit-serial form: the register starts with all ones;
  each input byte is added into the low eight bits and the register is shifted right
  eight times, the reflected polynomial \<open>0xEDB88320\<close> being added whenever a one is
  shifted out; at the end all bits are inverted.
\<close>

definition crc32_ref_shift :: "uint32 \<Rightarrow> uint32" where
  "crc32_ref_shift r = (if bit r 0 then drop_bit 1 r XOR 0xEDB88320 else drop_bit 1 r)"

definition crc32_ref_byte :: "uint32 \<Rightarrow> byte \<Rightarrow> uint32" where
  "crc32_ref_byte r b = (crc32_ref_shift ^^ 8) (r XOR ucast b)"

definition crc32_reference :: "buffer \<Rightarrow> uint32" where
  "crc32_reference bs = NOT (foldl crc32_ref_byte (- 1) bs)"

section \<open>The container builder (epub.ts)\<close>

subsection \<open>Data\<close>

record ZipEntry =
  entry_name :: jsstring
  entry_data :: buffer

record EpubResource =
  res_id :: jsstring
  res_href :: jsstring
  res_mediaType :: jsstring
  res_data :: buffer
  res_properties :: "jsstring option"

text \<open>
  \<open>EpubOptions\<close>. The function reads every field defensively (\<open>?.\<close>, \<open>||\<close>, \<open>??\<close>),
  so each field may be missing.
\<close>

record EpubOptions =
  opt_title :: "jsstring option"
  opt_author :: "jsstring option"
  opt_language :: "jsstring option"
  opt_bodyHtml :: "jsstring option"
  opt_resources :: "EpubResource list option"
  opt_coverResource :: "EpubResource option"
  opt_includeTitleInContent :: "bool option"

subsection \<open>\<open>escapeHtml\<close>\<close>

text \<open>Five global replacements, the ampersand first.\<close>

definition escapeHtml :: "jsstring \<Rightarrow> jsstring" where
  \<open>escapeHtml input =
     replace_char 0x27 (js ''&#39;'')
       (replace_char 0x22 (js ''&quot;'')
         (replace_char 0x3E (js ''&gt;'')
           (replace_char 0x3C (js ''&lt;'')
             (replace_char 0x26 (js ''&amp;'') input))))\<close>

subsection \<open>The documents of \<open>buildEpubBuffer\<close>\<close>

text \<open>The first lines of \<open>buildEpubBuffer\<close>: the defaults of the three metadata fields.\<close>

definition epub_title :: "EpubOptions \<Rightarrow> jsstring" where
  "epub_title options = js_or (map_option js_trim (opt_title options)) (js ''Article'')"

definition epub_author :: "EpubOptions \<Rightarrow> jsstring" where
  "epub_author options = js_or (map_option js_trim (opt_author options)) (js ''Inconnu'')"

definition epub_language :: "EpubOptions \<Rightarrow> jsstring" where
  "epub_language options = js_or (map_option js_trim (opt_language options)) (js ''en'')"

definition containerXml_text :: jsstring where
  \<open>containerXml_text =
     js ''<?xml version="1.0" encoding="UTF-8"?>\<newline>''
     @ js ''<container version="1.0" xmlns="urn:oasis:names:tc:opendocument:xmlns:container">\<newline>''
     @ js ''  <rootfiles>\<newline>''
     @ js ''    <rootfile full-path="OEBPS/content.opf" media-type="application/oebps-package+xml"/>\<newline>''
     @ js ''  </rootfiles>\<newline>''
     @ js ''</container>\<newline>''\<close>

definition manifestItem :: "EpubResource \<Rightarrow> jsstring" where
  \<open>manifestItem resource =
     js ''    <item id="''
     @ escapeHtml (res_id resource)
     @ js ''" href="''
     @ escapeHtml (res_href resource)
     @ js ''" media-type="''
     @ escapeHtml (res_mediaType resource)
     @ js ''"''
     @ (case res_properties resource of None \<Rightarrow> [] | Some p \<Rightarrow>
        if p = [] then [] else js '' properties="'' @ escapeHtml p @ js ''"'')
     @ js ''/>''\<close>

definition manifestBlock :: "EpubResource list \<Rightarrow> jsstring" where
  \<open>manifestBlock allResources =
     (let manifestItems = js_join (js ''\<newline>'') (map manifestItem allResources)
      in if manifestItems = [] then [] else manifestItems @ js ''\<newline>'')\<close>

definition coverMeta :: "EpubResource option \<Rightarrow> jsstring" where
  \<open>coverMeta coverResource =
     (case coverResource of
        Some cover \<Rightarrow> js ''    <meta name="cover" content="'' @ escapeHtml (res_id cover) @ js ''"/>\<newline>''
      | None \<Rightarrow> [])\<close>

definition coverManifest :: "EpubResource option \<Rightarrow> jsstring" where
  \<open>coverManifest coverResource =
     (case coverResource of
        Some cover \<Rightarrow> js ''    <item id="cover" href="cover.xhtml" media-type="application/xhtml+xml"/>\<newline>''
      | None \<Rightarrow> [])\<close>

definition coverSpine :: "EpubResource option \<Rightarrow> jsstring" where
  \<open>coverSpine coverResource =
     (case coverResource of
        Some cover \<Rightarrow> js ''    <itemref idref="cover"/>\<newline>''
      | None \<Rightarrow> [])\<close>

definition contentOpf_text ::
  "jsstring \<Rightarrow> jsstring \<Rightarrow> jsstring \<Rightarrow> jsstring \<Rightarrow> EpubResource option \<Rightarrow> EpubResource list \<Rightarrow> jsstring" where
  \<open>contentOpf_text uuid title language author coverResource allResources =
     js ''<?xml version="1.0" encoding="UTF-8"?>\<newline>''
     @ js ''<package version="3.0" xmlns="http://www.idpf.org/2007/opf" unique-identifier="bookid">\<newline>''
     @ js ''  <metadata xmlns:dc="http://purl.org/dc/elements/1.1/">\<newline>''
     @ js ''    <dc:identifier id="bookid">urn:uuid:''
     @ uuid
     @ js ''</dc:identifier>\<newline>''
     @ js ''    <dc:title>''
     @ escapeHtml title
     @ js ''</dc:title>\<newline>''
     @ js ''    <dc:language>''
     @ escapeHtml language
     @ js ''</dc:language>\<newline>''
     @ js ''    <dc:creator>''
     @ escapeHtml author
     @ js ''</dc:creator>\<newline>''
     @ coverMeta coverResource
     @ js ''  </metadata>\<newline>''
     @ js ''  <manifest>\<newline>''
     @ js ''    <item id="nav" properties="nav" href="nav.xhtml" media-type="application/xhtml+xml"/>\<newline>''
     @ coverManifest coverResource
     @ js ''    <item id="chapter" href="chapter.xhtml" media-type="application/xhtml+xml"/>\<newline>''
     @ manifestBlock allResources
     @ js ''  </manifest>\<newline>''
     @ js ''  <spine>\<newline>''
     @ coverSpine coverResource
     @ js ''    <itemref idref="chapter"/>\<newline>''
     @ js ''  </spine>\<newline>''
     @ js ''</package>\<newline>''\<close>

definition navXhtml_text :: "jsstring \<Rightarrow> jsstring \<Rightarrow> jsstring" where
  \<open>navXhtml_text title language =
     js ''<?xml version="1.0" encoding="UTF-8"?>\<newline>''
     @ js ''<html xmlns="http://www.w3.org/1999/xhtml" xmlns:epub="http://www.idpf.org/2007/ops" lang="''
     @ escapeHtml language
     @ js ''">\<newline>''
     @ js ''  <head>\<newline>''
     @ js ''    <title>''
     @ escapeHtml title
     @ js ''</title>\<newline>''
     @ js ''  </head>\<newline>''
     @ js ''  <body>\<newline>''
     @ js ''    <nav epub:type="toc" id="toc">\<newline>''
     @ js ''      <ol>\<newline>''
     @ js ''        <li><a href="chapter.xhtml">''
     @ escapeHtml title
     @ js ''</a></li>\<newline>''
     @ js ''      </ol>\<newline>''
     @ js ''    </nav>\<newline>''
     @ js ''  </body>\<newline>''
     @ js ''</html>\<newline>''\<close>

definition chapterXhtml_text :: "jsstring \<Rightarrow> jsstring \<Rightarrow> bool \<Rightarrow> jsstring \<Rightarrow> jsstring" where
  \<open>chapterXhtml_text title language includeTitleInContent bodyHtml =
     js ''<?xml version="1.0" encoding="UTF-8"?>\<newline>''
     @ js ''<html xmlns="http://www.w3.org/1999/xhtml" lang="''
     @ escapeHtml language
     @ js ''">\<newline>''
     @ js ''  <head>\<newline>''
     @ js ''    <title>''
     @ escapeHtml title
     @ js ''</title>\<newline>''
     @ js ''    <meta charset="UTF-8" />\<newline>''
     @ js ''    <style>\<newline>''
     @ js ''      h1 { font-size: 1.2em; margin: 0 0 0.6em 0; line-height: 1.2; }\<newline>''
     @ js ''      header { margin: 0; }\<newline>''
     @ js ''    </style>\<newline>''
     @ js ''  </head>\<newline>''
     @ js ''  <body>\<newline>''
     @ (if includeTitleInContent
      then js ''    <header>\<newline>'' @ js ''      <h1>'' @ escapeHtml title @ js ''</h1>\<newline>'' @ js ''    </header>\<newline>''
      else [])
     @ js ''    <article>\<newline>''
     @ bodyHtml
     @ js ''\<newline>''
     @ js ''    </article>\<newline>''
     @ js ''  </body>\<newline>''
     @ js ''</html>\<newline>''\<close>

definition coverXhtml_text :: "jsstring \<Rightarrow> jsstring \<Rightarrow> EpubResource \<Rightarrow> jsstring" where
  \<open>coverXhtml_text title language cover =
     js ''<?xml version="1.0" encoding="UTF-8"?>\<newline>''
     @ js ''<html xmlns="http://www.w3.org/1999/xhtml" lang="''
     @ escapeHtml language
     @ js ''">\<newline>''
     @ js ''  <head>\<newline>''
     @ js ''    <title>''
     @ escapeHtml title
     @ js ''</title>\<newline>''
     @ js ''    <meta charset="UTF-8" />\<newline>''
     @ js ''    <style>\<newline>''
     @ js ''      html, body { margin: 0; padding: 0; height: 100%; }\<newline>''
     @ js ''      img { display: block; width: 100%; height: 100%; object-fit: contain; }\<newline>''
     @ js ''    </style>\<newline>''
     @ js ''  </head>\<newline>''
     @ js ''  <body>\<newline>''
     @ js ''    <img src="''
     @ escapeHtml (res_href cover)
     @ js ''" alt="''
     @ escapeHtml title
     @ js ''"/>\<newline>''
     @ js ''  </body>\<newline>''
     @ js ''</html>\<newline>''\<close>

text \<open>
  The array \<open>entries\<close> that \<open>buildEpubBuffer\<close> hands to \<open>buildZip\<close>. The identifier
  drawn by \<open>crypto.randomUUID()\<close> is a parameter.
\<close>

definition epub_entries :: "jsstring \<Rightarrow> EpubOptions \<Rightarrow> ZipEntry list" where
  "epub_entries uuid options =
     (let title = epub_title options;
          author = epub_author options;
          language = epub_language options;
          bodyHtml = js_or (opt_bodyHtml options) [];
          resources = (case opt_resources options of None \<Rightarrow> [] | Some rs \<Rightarrow> rs);
          coverResource = opt_coverResource options;
          includeTitleInContent =
            (case opt_includeTitleInContent options of None \<Rightarrow> True | Some b \<Rightarrow> b);
          mimetype = utf8_encode (js ''application/epub+zip'');
          containerXml = utf8_encode containerXml_text;
          allResources = (case coverResource of Some cover \<Rightarrow> cover # resources | None \<Rightarrow> resources);
          contentOpf =
            utf8_encode (contentOpf_text uuid title language author coverResource allResources);
          navXhtml = utf8_encode (navXhtml_text title language);
          chapterXhtml =
            utf8_encode (chapterXhtml_text title language includeTitleInContent bodyHtml);
          coverXhtml =
            map_option (\<lambda>cover. utf8_encode (coverXhtml_text title language cover)) coverResource
      in [\<lparr>entry_name = js ''mimetype'', entry_data = mimetype\<rparr>,
          \<lparr>entry_name = js ''META-INF/container.xml'', entry_data = containerXml\<rparr>,
          \<lparr>entry_name = js ''OEBPS/content.opf'', entry_data = contentOpf\<rparr>,
          \<lparr>entry_name = js ''OEBPS/nav.xhtml'', entry_data = navXhtml\<rparr>]
         @ (case coverXhtml of
              Some d \<Rightarrow> [\<lparr>entry_name = js ''OEBPS/cover.xhtml'', entry_data = d\<rparr>]
            | None \<Rightarrow> [])
         @ [\<lparr>entry_name = js ''OEBPS/chapter.xhtml'', entry_data = chapterXhtml\<rparr>]
         @ map (\<lambda>resource. \<lparr>entry_name = js ''OEBPS/'' @ res_href resource,
                              entry_data = res_data resource\<rparr>) allResources)"

subsection \<open>Writing into a buffer\<close>

text \<open>
  \<open>Buffer.alloc(n)\<close> is \<open>n\<close> zero bytes. \<open>buf.writeUInt16LE(value, offset)\<close> and
  \<open>buf.writeUInt32LE(value, offset)\<close> store the value in little-endian order; Node throws
  a \<open>RangeError\<close> when the value does not fit the field or the field does not fit the
  buffer.
\<close>

definition alloc :: "nat \<Rightarrow> buffer" where
  "alloc n = replicate n 0"

definition writeUInt16LE :: "nat \<Rightarrow> nat \<Rightarrow> buffer \<Rightarrow> js_error + buffer" where
  "writeUInt16LE v off buf =
     (if 65535 < v \<or> length buf < off + 2 then Inl RangeError
      else Inr (buf[off := of_nat v, off + 1 := of_nat (v div 256)]))"

definition writeUInt32LE :: "nat \<Rightarrow> nat \<Rightarrow> buffer \<Rightarrow> js_error + buffer" where
  "writeUInt32LE v off buf =
     (if 4294967295 < v \<or> length buf < off + 4 then Inl RangeError
      else Inr (buf[off := of_nat v, off + 1 := of_nat (v div 256),
                    off + 2 := of_nat (v div 65536), off + 3 := of_nat (v div 16777216)]))"

text \<open>A sequence of writes, in the order of the statements; the first exception ends it.\<close>

datatype buffer_write = U16 nat nat | U32 nat nat

fun apply_write :: "buffer_write \<Rightarrow> buffer \<Rightarrow> js_error + buffer" where
  "apply_write (U16 v off) buf = writeUInt16LE v off buf"
| "apply_write (U32 v off) buf = writeUInt32LE v off buf"

fun apply_writes :: "buffer_write list \<Rightarrow> buffer \<Rightarrow> js_error + buffer" where
  "apply_writes [] buf = Inr buf"
| "apply_writes (w # ws) buf =
     (case apply_write w buf of Inl e \<Rightarrow> Inl e | Inr buf' \<Rightarrow> apply_writes ws buf')"

text \<open>\<open>source.copy(target, targetStart)\<close>: as many bytes as fit are copied.\<close>

definition buffer_copy :: "buffer \<Rightarrow> buffer \<Rightarrow> nat \<Rightarrow> buffer" where
  "buffer_copy source target targetStart =
     (let n = min (length source) (length target - targetStart)
      in take targetStart target @ take n source @ drop (targetStart + n) target)"

text \<open>The reads a consumer of the archive performs on the same fields.\<close>

definition readUInt16LE :: "buffer \<Rightarrow> nat \<Rightarrow> nat" where
  "readUInt16LE buf off = unat (buf ! off) + 256 * unat (buf ! (off + 1))"

definition readUInt32LE :: "buffer \<Rightarrow> nat \<Rightarrow> nat" where
  "readUInt32LE buf off =
     unat (buf ! off) + 256 * unat (buf ! (off + 1)) + 65536 * unat (buf ! (off + 2))
     + 16777216 * unat (buf ! (off + 3))"

subsection \<open>\<open>buildZip\<close>\<close>

text \<open>The three variables the loop of \<open>buildZip\<close> updates.\<close>

record zip_state =
  fileChunks :: "buffer list"
  centralChunks :: "buffer list"
  offset :: nat

definition localHeader_of :: "buffer \<Rightarrow> buffer \<Rightarrow> uint32 \<Rightarrow> js_error + buffer" where
  "localHeader_of nameBuffer data crc =
     (case apply_writes
        [U32 0x04034b50 0, U16 20 4, U16 0 6, U16 0 8, U16 0 10, U16 0 12,
         U32 (unat crc) 14, U32 (length data) 18, U32 (length data) 22,
         U16 (length nameBuffer) 26, U16 0 28]
        (alloc (30 + length nameBuffer)) of
        Inl e \<Rightarrow> Inl e
      | Inr localHeader \<Rightarrow> Inr (buffer_copy nameBuffer localHeader 30))"

definition centralHeader_of :: "buffer \<Rightarrow> buffer \<Rightarrow> uint32 \<Rightarrow> nat \<Rightarrow> js_error + buffer" where
  "centralHeader_of nameBuffer data crc off =
     (case apply_writes
        [U32 0x02014b50 0, U16 20 4, U16 20 6, U16 0 8, U16 0 10, U16 0 12, U16 0 14,
         U32 (unat crc) 16, U32 (length data) 20, U32 (length data) 24,
         U16 (length nameBuffer) 28, U16 0 30, U16 0 32, U16 0 34, U16 0 36,
         U32 0 38, U32 off 42]
        (alloc (46 + length nameBuffer)) of
        Inl e \<Rightarrow> Inl e
      | Inr centralHeader \<Rightarrow> Inr (buffer_copy nameBuffer centralHeader 46))"

text \<open>One pass of the loop body for \<open>entry\<close>.\<close>

definition zip_entry_step :: "zip_state \<Rightarrow> ZipEntry \<Rightarrow> js_error + zip_state" where
  "zip_entry_step st entry =
     (let nameBuffer = utf8_encode (entry_name entry);
          data = entry_data entry;
          crc = crc32 data
      in case localHeader_of nameBuffer data crc of
           Inl e \<Rightarrow> Inl e
         | Inr localHeader \<Rightarrow>
             (case centralHeader_of nameBuffer data crc (offset st) of
                Inl e \<Rightarrow> Inl e
              | Inr centralHeader \<Rightarrow>
                  Inr \<lparr>fileChunks = fileChunks st @ [localHeader, data],
                       centralChunks = centralChunks st @ [centralHeader],
                       offset = offset st + (length localHeader + length data)\<rparr>))"

fun zip_loop :: "ZipEntry list \<Rightarrow> zip_state \<Rightarrow> js_error + zip_state" where
  "zip_loop [] st = Inr st"
| "zip_loop (entry # entries) st =
     (case zip_entry_step st entry of Inl e \<Rightarrow> Inl e | Inr st' \<Rightarrow> zip_loop entries st')"

definition endRecord_of :: "nat \<Rightarrow> nat \<Rightarrow> nat \<Rightarrow> js_error + buffer" where
  "endRecord_of count centralLength off =
     apply_writes
       [U32 0x06054b50 0, U16 0 4, U16 0 6, U16 count 8, U16 count 10,
        U32 centralLength 12, U32 off 16, U16 0 20]
       (alloc 22)"

definition buildZip :: "ZipEntry list \<Rightarrow> js_error + buffer" where
  "buildZip entries =
     (case zip_loop entries \<lparr>fileChunks = [], centralChunks = [], offset = 0\<rparr> of
        Inl e \<Rightarrow> Inl e
      | Inr st \<Rightarrow>
          (let centralDirectory = concat (centralChunks st)
           in case endRecord_of (length entries) (length centralDirectory) (offset st) of
                Inl e \<Rightarrow> Inl e
              | Inr endRecord \<Rightarrow> Inr (concat (fileChunks st @ [centralDirectory, endRecord]))))"

text \<open>\<open>buildEpubBuffer\<close> returns what \<open>buildZip\<close> makes of the entries.\<close>

definition buildEpubBuffer :: "jsstring \<Rightarrow> EpubOptions \<Rightarrow> js_error + buffer" where
  "buildEpubBuffer uuid options = buildZip (epub_entries uuid options)"

subsection \<open>The layout of the archive, as a function of the entries\<close>

text \<open>
  Little-endian fields, the bytes of the two headers and the sizes of the records.
  These describe what \<open>buildZip\<close> is proved to produce; they are not part of the code.
\<close>

definition le16 :: "nat \<Rightarrow> buffer" where
  "le16 v = [of_nat v, of_nat (v div 256)]"

definition le32 :: "nat \<Rightarrow> buffer" where
  "le32 v = [of_nat v, of_nat (v div 256), of_nat (v div 65536), of_nat (v div 16777216)]"

fun write_bytes :: "buffer_write \<Rightarrow> buffer" where
  "write_bytes (U16 v off) = le16 v"
| "write_bytes (U32 v off) = le32 v"

fun write_fits :: "buffer_write \<Rightarrow> bool" where
  "write_fits (U16 v off) = (v \<le> 65535)"
| "write_fits (U32 v off) = (v \<le> 4294967295)"

fun writes_contiguous :: "nat \<Rightarrow> buffer_write list \<Rightarrow> bool" where
  "writes_contiguous start [] = True"
| "writes_contiguous start (U16 v off # ws) = (off = start \<and> writes_contiguous (start + 2) ws)"
| "writes_contiguous start (U32 v off # ws) = (off = start \<and> writes_contiguous (start + 4) ws)"

definition name_length :: "ZipEntry \<Rightarrow> nat" where
  "name_length e = length (utf8_encode (entry_name e))"

definition data_length :: "ZipEntry \<Rightarrow> nat" where
  "data_length e = length (entry_data e)"

definition local_header_bytes :: "ZipEntry \<Rightarrow> buffer" where
  "local_header_bytes e =
     le32 0x04034b50 @ le16 20 @ le16 0 @ le16 0 @ le16 0 @ le16 0
     @ le32 (unat (crc32 (entry_data e))) @ le32 (data_length e) @ le32 (data_length e)
     @ le16 (name_length e) @ le16 0 @ utf8_encode (entry_name e)"

definition central_header_bytes :: "ZipEntry \<Rightarrow> nat \<Rightarrow> buffer" where
  "central_header_bytes e off =
     le32 0x02014b50 @ le16 20 @ le16 20 @ le16 0 @ le16 0 @ le16 0 @ le16 0
     @ le32 (unat (crc32 (entry_data e))) @ le32 (data_length e) @ le32 (data_length e)
     @ le16 (name_length e) @ le16 0 @ le16 0 @ le16 0 @ le16 0 @ le32 0 @ le32 off
     @ utf8_encode (entry_name e)"

definition end_record_bytes :: "nat \<Rightarrow> nat \<Rightarrow> nat \<Rightarrow> buffer" where
  "end_record_bytes count centralLength off =
     le32 0x06054b50 @ le16 0 @ le16 0 @ le16 count @ le16 count
     @ le32 centralLength @ le32 off @ le16 0"

definition local_record_size :: "ZipEntry \<Rightarrow> nat" where
  "local_record_size e = 30 + name_length e + data_length e"

definition central_record_size :: "ZipEntry \<Rightarrow> nat" where
  "central_record_size e = 46 + name_length e"

text \<open>Where the local header of entry \<open>n\<close> starts: the sizes of the records before it.\<close>

definition local_offset :: "ZipEntry list \<Rightarrow> nat \<Rightarrow> nat" where
  "local_offset entries n = sum_list (map local_record_size (take n entries))"

text \<open>Where the central record of entry \<open>n\<close> starts: after all local records.\<close>

definition central_offset :: "ZipEntry list \<Rightarrow> nat \<Rightarrow> nat" where
  "central_offset entries n =
     sum_list (map local_record_size entries) + sum_list (map central_record_size (take n entries))"

text \<open>The entries the loop accepts when it starts at offset \<open>off\<close>, and what it collects.\<close>

fun zip_loop_ok :: "ZipEntry list \<Rightarrow> nat \<Rightarrow> bool" where
  "zip_loop_ok [] off = True"
| "zip_loop_ok (e # es) off =
     (data_length e \<le> 4294967295 \<and> name_length e \<le> 65535 \<and> off \<le> 4294967295
      \<and> zip_loop_ok es (off + local_record_size e))"

fun local_records :: "ZipEntry list \<Rightarrow> buffer list" where
  "local_records [] = []"
| "local_records (e # es) = local_header_bytes e # entry_data e # local_records es"

fun central_records :: "ZipEntry list \<Rightarrow> nat \<Rightarrow> buffer list" where
  "central_records [] off = []"
| "central_records (e # es) off =
     central_header_bytes e off # central_records es (off + local_record_size e)"

definition zip_ok :: "ZipEntry list \<Rightarrow> bool" where
  "zip_ok entries \<longleftrightarrow>
     zip_loop_ok entries 0 \<and> length entries \<le> 65535
     \<and> sum_list (map central_record_size entries) \<le> 4294967295
     \<and> sum_list (map local_record_size entries) \<le> 4294967295"

definition zip_bytes :: "ZipEntry list \<Rightarrow> buffer" where
  "zip_bytes entries =
     concat (local_records entries) @ concat (central_records entries 0)
     @ end_record_bytes (length entries) (sum_list (map central_record_size entries))
         (sum_list (map local_record_size entries))"

text \<open>The first element of the array \<open>entries\<close> of \<open>buildEpubBuffer\<close>, with its bytes.\<close>

definition mimetype_entry :: ZipEntry where
  "mimetype_entry =
     \<lparr>entry_name = js ''mimetype'', entry_data = ascii ''application/epub+zip''\<rparr>"

subsection \<open>Escaping, following the specification's words\<close>

text \<open>
  A text is escaped for inclusion in markup when each of the five characters that have a
  meaning there is replaced by its entity, once, and every other character is kept:
  \<open>&\<close> by \<open>&amp;\<close>, \<open><\<close> by \<open>&lt;\<close>, \<open>>\<close> by \<open>&gt;\<close>, the double quote by
  \<open>&quot;\<close> and the apostrophe by \<open>&#39;\<close>.
\<close>

definition html_entity :: "16 word \<Rightarrow> jsstring" where
  \<open>html_entity c =
     (if c = 0x26 then js ''&amp;''
      else if c = 0x3C then js ''&lt;''
      else if c = 0x3E then js ''&gt;''
      else if c = 0x22 then js ''&quot;''
      else if c = 0x27 then js ''&#39;''
      else [c])\<close>

definition html_escaped :: "jsstring \<Rightarrow> jsstring" where
  "html_escaped s = concat (map html_entity s)"

section \<open>Concrete inputs\<close>

text \<open>Two small entries for the archive writer.\<close>

definition example_entries :: "ZipEntry list" where
  "example_entries =
     [\<lparr>entry_name = js ''a'', entry_data = [1, 2, 3]\<rparr>,
      \<lparr>entry_name = js ''bc'', entry_data = [4, 5]\<rparr>]"

text \<open>An identifier and two option records for the container builder.\<close>

definition example_uuid :: jsstring where
  "example_uuid = js ''123e4567-e89b-42d3-a456-426614174000''"

definition example_options :: EpubOptions where
  \<open>example_options =
     \<lparr>opt_title = Some (js ''Hello''), opt_author = Some (js ''Site''),
      opt_language = Some (js ''fr''), opt_bodyHtml = Some (js ''<p>Hi</p>''),
      opt_resources = Some [], opt_coverResource = None,
      opt_includeTitleInContent = Some True\<rparr>\<close>

definition example_cover :: EpubResource where
  "example_cover =
     \<lparr>res_id = js ''cover-image'', res_href = js ''images/cover.jpg'',
      res_mediaType = js ''image/jpeg'', res_data = [0xFF, 0xD8, 0xFF],
      res_properties = Some (js ''cover-image'')\<rparr>"

definition example_image :: EpubResource where
  "example_image =
     \<lparr>res_id = js ''img-1'', res_href = js ''images/a.png'',
      res_mediaType = js ''image/png'', res_data = [0x89, 0x50, 0x4E, 0x47],
      res_properties = None\<rparr>"

definition example_options_cover :: EpubOptions where
  "example_options_cover =
     example_options\<lparr>opt_resources := Some [example_image],
                      opt_coverResource := Some example_cover\<rparr>"

text \<open>A document whose title is white space only, without author, with an empty language.\<close>

definition example_options_blank :: EpubOptions where
  "example_options_blank =
     \<lparr>opt_title = Some [0x20, 0x09, 0xA0], opt_author = None, opt_language = Some [],
      opt_bodyHtml = Some (js ''<p>Hi</p>''), opt_resources = None, opt_coverResource = None,
      opt_includeTitleInContent = None\<rparr>"

text \<open>
  A document whose title has white space around it and all five characters that are
  escaped, whose author is missing and whose language is blank.
\<close>

definition example_options_escape :: EpubOptions where
  \<open>example_options_escape =
     \<lparr>opt_title = Some (js ''  Q&A <"it'' @ [0x27] @ js ''s"> ''), opt_author = None,
      opt_language = Some (js '' ''), opt_bodyHtml = Some (js ''<p>Hi</p>''),
      opt_resources = None, opt_coverResource = None, opt_includeTitleInContent = None\<rparr>\<close>

section \<open>The message encoder (email.ts)\<close>

definition CRLF :: jsstring where
  "CRLF = [0x0D, 0x0A]"

subsection \<open>Runtime functions the encoder calls\<close>

text \<open>\<open>buf.toString("base64")\<close>: three bytes become four characters, with \<open>=\<close> padding.\<close>

definition base64_alphabet :: string where
  "base64_alphabet = ''ABCDEFGHIJKLMNOPQRSTUVWXYZabcdefghijklmnopqrstuvwxyz0123456789+/''"

definition base64_char :: "nat \<Rightarrow> 16 word" where
  "base64_char n = of_nat (of_char (base64_alphabet ! (n mod 64)))"

fun base64_encode :: "buffer \<Rightarrow> jsstring" where
  "base64_encode [] = []"
| "base64_encode [a] =
     [base64_char (unat a div 4), base64_char (unat a mod 4 * 16), 0x3D, 0x3D]"
| "base64_encode [a, b] =
     [base64_char (unat a div 4), base64_char (unat a mod 4 * 16 + unat b div 16),
      base64_char (unat b mod 16 * 4), 0x3D]"
| "base64_encode (a # b # c # rest) =
     [base64_char (unat a div 4), base64_char (unat a mod 4 * 16 + unat b div 16),
      base64_char (unat b mod 16 * 4 + unat c div 64), base64_char (unat c mod 64)]
     @ base64_encode rest"

text \<open>\<open>String.prototype.trimEnd\<close>.\<close>

definition js_trimEnd :: "jsstring \<Rightarrow> jsstring" where
  "js_trimEnd s = rev (dropWhile is_js_whitespace (rev s))"

text \<open>
  \<open>s.replace(/[class]+/g, r)\<close>: every maximal run of characters of the class is replaced
  by \<open>r\<close>.
\<close>

function replace_runs :: "(16 word \<Rightarrow> bool) \<Rightarrow> jsstring \<Rightarrow> jsstring \<Rightarrow> jsstring" where
  "replace_runs p r [] = []"
| "replace_runs p r (c # cs) =
     (if p c then r @ replace_runs p r (dropWhile p cs) else c # replace_runs p r cs)"
  by pat_completeness auto
termination
  by (relation "measure (\<lambda>(p, r, s). length s)")
    (auto simp add: le_imp_less_Suc length_dropWhile_le)

text \<open>
  \<open>n.toString(16).toUpperCase()\<close> and the two-digit escape \<open>%XX\<close> of one byte.
\<close>

definition hex_digit :: "nat \<Rightarrow> 16 word" where
  "hex_digit d = of_nat (of_char (''0123456789ABCDEF'' ! (d mod 16)))"

fun toString16_upper :: "nat \<Rightarrow> jsstring" where
  "toString16_upper n =
     (if n < 16 then [hex_digit n] else toString16_upper (n div 16) @ [hex_digit (n mod 16)])"

declare toString16_upper.simps [simp del]

definition percent_byte :: "byte \<Rightarrow> jsstring" where
  "percent_byte b = [0x25, hex_digit (unat b div 16), hex_digit (unat b mod 16)]"

text \<open>
  \<open>encodeURIComponent\<close>: letters, digits and \<open>- _ . ! ~ * ' ( )\<close> are kept, every other
  code point is written as the escapes of its UTF-8 bytes; a surrogate without its partner
  raises a \<open>URIError\<close>.
\<close>

definition uri_unreserved :: "16 word \<Rightarrow> bool" where
  "uri_unreserved c \<longleftrightarrow>
     (0x41 \<le> c \<and> c \<le> 0x5A) \<or> (0x61 \<le> c \<and> c \<le> 0x7A) \<or> (0x30 \<le> c \<and> c \<le> 0x39)
     \<or> c \<in> {0x2D, 0x5F, 0x2E, 0x21, 0x7E, 0x2A, 0x27, 0x28, 0x29}"

fun encodeURIComponent :: "jsstring \<Rightarrow> js_error + jsstring" where
  "encodeURIComponent [] = Inr []"
| "encodeURIComponent [c] =
     (if uri_unreserved c then Inr [c]
      else if is_high_surrogate c \<or> is_low_surrogate c then Inl URIError
      else Inr (concat (map percent_byte (utf8_code_point (unat c)))))"
| "encodeURIComponent (c # d # cs) =
     (if uri_unreserved c then
        (case encodeURIComponent (d # cs) of Inl e \<Rightarrow> Inl e | Inr t \<Rightarrow> Inr (c # t))
      else if is_high_surrogate c then
        (if is_low_surrogate d then
           (case encodeURIComponent cs of
              Inl e \<Rightarrow> Inl e
            | Inr t \<Rightarrow>
                Inr (concat (map percent_byte
                       (utf8_code_point
                          (0x10000 + (unat c - 0xD800) * 0x400 + (unat d - 0xDC00)))) @ t))
         else Inl URIError)
      else if is_low_surrogate c then Inl URIError
      else
        (case encodeURIComponent (d # cs) of
           Inl e \<Rightarrow> Inl e
         | Inr t \<Rightarrow> Inr (concat (map percent_byte (utf8_code_point (unat c))) @ t)))"

subsection \<open>The helper functions of the encoder\<close>

text \<open>
  \<open>chunkBase64\<close>: the loop appends \<open>value.slice(i, i + 76)\<close> and a line break for
  \<open>i = 0, 76, 152, ...\<close> below the length; the result is trimmed at the end.
\<close>

function chunkBase64_loop :: "jsstring \<Rightarrow> nat \<Rightarrow> jsstring" where
  "chunkBase64_loop v i =
     (if i < length v then take 76 (drop i v) @ CRLF @ chunkBase64_loop v (i + 76) else [])"
  by pat_completeness auto
termination
  by (relation "measure (\<lambda>(v, i). length v - i)") auto

declare chunkBase64_loop.simps [simp del]

definition chunkBase64 :: "jsstring \<Rightarrow> jsstring" where
  "chunkBase64 v = js_trimEnd (chunkBase64_loop v 0)"

definition isAscii :: "jsstring \<Rightarrow> bool" where
  "isAscii v = list_all (\<lambda>c. c \<le> 127) v"

definition sanitizeHeader :: "jsstring \<Rightarrow> jsstring" where
  "sanitizeHeader v = js_trim (replace_runs (\<lambda>c. c = 0x0D \<or> c = 0x0A) [0x20] v)"

definition encodeHeader :: "jsstring \<Rightarrow> jsstring" where
  "encodeHeader v =
     (if isAscii v then sanitizeHeader v
      else js ''=?UTF-8?B?'' @ base64_encode (utf8_encode v) @ js ''?='')"

text \<open>
  \<open>toAsciiFilename\<close>. The Unicode normalisation \<open>value.normalize("NFKD")\<close> is a function
  of the runtime and a parameter here.
\<close>

definition toAsciiFilename :: "(jsstring \<Rightarrow> jsstring) \<Rightarrow> jsstring \<Rightarrow> jsstring" where
  "toAsciiFilename nfkd v =
     (let normalized = filter (\<lambda>c. 0x20 \<le> c \<and> c \<le> 0x7E) (nfkd v);
          cleaned =
            js_trim
              (replace_runs is_js_whitespace [0x20]
                (replace_runs (\<lambda>c. c = 0x22 \<or> c = 0x5C) [0x20] normalized))
      in if cleaned = [] then js ''Article.epub'' else cleaned)"

definition encodeRFC5987ValueChars :: "jsstring \<Rightarrow> js_error + jsstring" where
  "encodeRFC5987ValueChars v =
     (case encodeURIComponent v of
        Inl e \<Rightarrow> Inl e
      | Inr t \<Rightarrow>
          Inr (concat (map (\<lambda>c. if c \<in> {0x21, 0x27, 0x28, 0x29, 0x2A}
                                 then 0x25 # toString16_upper (unat c) else [c]) t)))"

definition encodeFilenameHeader ::
  "(jsstring \<Rightarrow> jsstring) \<Rightarrow> jsstring \<Rightarrow> js_error + jsstring \<times> jsstring" where
  "encodeFilenameHeader nfkd v =
     (let sanitized = sanitizeHeader v;
          asciiFilename = toAsciiFilename nfkd sanitized
      in case encodeRFC5987ValueChars sanitized of
           Inl e \<Rightarrow> Inl e
         | Inr rfc5987Filename \<Rightarrow> Inr (asciiFilename, rfc5987Filename))"

subsection \<open>\<open>buildMimeMessage\<close>\<close>

record MimeInput =
  mi_title :: jsstring
  mi_filename :: jsstring
  mi_epubBuffer :: buffer
  mi_senderEmail :: jsstring
  mi_kindleEmail :: jsstring

text \<open>
  The array \<open>lines\<close>. Two values come from outside the arguments: the identifier drawn by
  \<open>crypto.randomUUID()\<close> and the text \<open>new Date().toUTCString()\<close> of the clock; both
  are parameters.
\<close>

definition mimeLines ::
  "(jsstring \<Rightarrow> jsstring) \<Rightarrow> jsstring \<Rightarrow> jsstring \<Rightarrow> MimeInput \<Rightarrow> js_error + jsstring list" where
  \<open>mimeLines nfkd uuid now input =
     (let boundary = js ''raycast-'' @ uuid;
          subject = encodeHeader (if mi_title input = [] then js ''Reading'' else mi_title input);
          textBody = js ''Here is your article in EPUB format.'';
          attachmentBase64 = chunkBase64 (base64_encode (mi_epubBuffer input))
      in case encodeFilenameHeader nfkd
                (if mi_filename input = [] then js ''Article.epub'' else mi_filename input) of
           Inl e \<Rightarrow> Inl e
         | Inr (asciiFilename, rfc5987Filename) \<Rightarrow>
             Inr [js ''Date: '' @ now,
                  js ''From: '' @ sanitizeHeader (mi_senderEmail input),
                  js ''To: '' @ sanitizeHeader (mi_kindleEmail input),
                  js ''Subject: '' @ subject,
                  js ''MIME-Version: 1.0'',
                  js ''Content-Type: multipart/mixed; boundary="'' @ boundary @ js ''"'',
                  [],
                  js ''--'' @ boundary,
                  js ''Content-Type: text/plain; charset="utf-8"'',
                  js ''Content-Transfer-Encoding: 7bit'',
                  [],
                  textBody,
                  [],
                  js ''--'' @ boundary,
                  js ''Content-Type: application/epub+zip; name="'' @ asciiFilename
                    @ js ''"; name*=UTF-8'' @ [0x27, 0x27] @ rfc5987Filename,
                  js ''Content-Transfer-Encoding: base64'',
                  js ''Content-Disposition: attachment; filename="'' @ asciiFilename
                    @ js ''"; filename*=UTF-8'' @ [0x27, 0x27] @ rfc5987Filename,
                  [],
                  attachmentBase64,
                  [],
                  js ''--'' @ boundary @ js ''--'',
                  []])\<close>

definition buildMimeMessage ::
  "(jsstring \<Rightarrow> jsstring) \<Rightarrow> jsstring \<Rightarrow> jsstring \<Rightarrow> MimeInput \<Rightarrow> js_error + jsstring" where
  "buildMimeMessage nfkd uuid now input =
     (case mimeLines nfkd uuid now input of
        Inl e \<Rightarrow> Inl e
      | Inr lines \<Rightarrow> Inr (js_join CRLF lines))"

section \<open>The SMTP client (email.ts)\<close>

subsection \<open>\<open>dotStuff\<close>\<close>

text \<open>
  \<open>message.split(/\r?\n/)\<close>: the text is cut at every LF, and a CR directly before the
  LF belongs to the separator. The result has one element more than there are separators.
\<close>

fun split_lines :: "jsstring \<Rightarrow> jsstring list" where
  "split_lines [] = [[]]"
| "split_lines [c] = (if c = 0x0A then [[], []] else [[c]])"
| "split_lines (c # d # cs) =
     (if c = 0x0A then [] # split_lines (d # cs)
      else if c = 0x0D \<and> d = 0x0A then [] # split_lines cs
      else (case split_lines (d # cs) of l # ls \<Rightarrow> (c # l) # ls | [] \<Rightarrow> [[c]]))"

definition startsWith_dot :: "jsstring \<Rightarrow> bool" where
  "startsWith_dot line = (case line of c # rest \<Rightarrow> c = 0x2E | [] \<Rightarrow> False)"

definition dotStuff :: "jsstring \<Rightarrow> jsstring" where
  "dotStuff message =
     js_join CRLF (map (\<lambda>line. if startsWith_dot line then 0x2E # line else line)
                     (split_lines message))"

subsection \<open>Data\<close>

datatype SmtpSecurity = Ssl | StartTls | NoSecurity

record SmtpClientOptions =
  host :: jsstring
  port :: nat
  security :: SmtpSecurity
  timeoutMs :: "nat option"

record SmtpResponse =
  resp_code :: nat
  resp_lines :: "jsstring list"

text \<open>
  The socket the client holds, as far as the client acts on it: whether it is a TLS
  socket, what was passed to \<open>write\<close>, and whether \<open>end\<close> and \<open>destroy\<close> were called.
\<close>

record transport =
  tr_secure :: bool
  tr_written :: "jsstring list"
  tr_ended :: bool
  tr_destroyed :: bool

text \<open>
  The fields of \<open>SmtpClient\<close>. \<open>pending\<close> holds the \<open>expected\<close> codes of the promise
  that waits for a response (\<open>None\<close> inside when the caller gave no codes); the callbacks
  and the timer of the slot are the semantics of the wait below.
\<close>

record SmtpClient =
  c_socket :: "transport option"
  c_buffer :: jsstring
  c_currentResponseCode :: "nat option"
  c_currentResponseLines :: "jsstring list"
  c_queuedResponses :: "SmtpResponse list"
  c_pending :: "nat list option option"
  c_options :: SmtpClientOptions

definition new_SmtpClient :: "SmtpClientOptions \<Rightarrow> SmtpClient" where
  "new_SmtpClient options =
     \<lparr>c_socket = None, c_buffer = [], c_currentResponseCode = None,
      c_currentResponseLines = [], c_queuedResponses = [], c_pending = None,
      c_options = options\<rparr>"

text \<open>
  What happens on the socket while the client waits: a chunk of data arrives, the socket
  reports an error, or the timer of the waiting promise fires.
\<close>

datatype socket_event = Data jsstring | SocketError js_error | Timeout

text \<open>How a waiting promise is settled: rejected with an error or resolved with a response.\<close>

type_synonym settlement = "js_error + SmtpResponse"

text \<open>
  An asynchronous method: from the client and the events still to come to the outcome,
  the client afterwards and the events not yet consumed.
\<close>

type_synonym 'a smtp_op =
  "SmtpClient \<Rightarrow> socket_event list \<Rightarrow> (js_error + 'a) \<times> SmtpClient \<times> socket_event list"

definition smtp_then :: "'a smtp_op \<Rightarrow> ('a \<Rightarrow> 'b smtp_op) \<Rightarrow> 'b smtp_op" where
  "smtp_then m f = (\<lambda>c evs.
     case m c evs of
       (Inl e, c', evs') \<Rightarrow> (Inl e, c', evs')
     | (Inr x, c', evs') \<Rightarrow> f x c' evs')"

definition smtp_done :: "unit smtp_op" where
  "smtp_done = (\<lambda>c evs. (Inr (), c, evs))"

subsection \<open>Parsing responses\<close>

text \<open>Decimal digits of a number, as the template literal prints it.\<close>

fun number_toString :: "nat \<Rightarrow> jsstring" where
  "number_toString n =
     (if n < 10 then [of_nat (48 + n)]
      else number_toString (n div 10) @ [of_nat (48 + n mod 10)])"

declare number_toString.simps [simp del]

definition unexpected_response :: "nat \<Rightarrow> js_error" where
  "unexpected_response code =
     Error (js ''Unexpected SMTP response ('' @ number_toString code @ js '').'')"

definition is_digit :: "16 word \<Rightarrow> bool" where
  "is_digit c \<longleftrightarrow> 0x30 \<le> c \<and> c \<le> 0x39"

definition is_line_terminator :: "16 word \<Rightarrow> bool" where
  "is_line_terminator c \<longleftrightarrow> c \<in> {0x0A, 0x0D, 0x2028, 0x2029}"

text \<open>
  \<open>line.match(/^(\d{3})([ -])(.*)$/)\<close>: three digits, a space or a hyphen, and a rest
  without line terminators up to the end of the string. The result is the number of the
  first group and the separator.
\<close>

definition match_response_line :: "jsstring \<Rightarrow> (nat \<times> 16 word) option" where
  "match_response_line line =
     (case line of
        d0 # d1 # d2 # sep # rest \<Rightarrow>
          if is_digit d0 \<and> is_digit d1 \<and> is_digit d2 \<and> (sep = 0x20 \<or> sep = 0x2D)
             \<and> list_all (\<lambda>c. \<not> is_line_terminator c) rest
          then Some (100 * (unat d0 - 48) + 10 * (unat d1 - 48) + (unat d2 - 48), sep)
          else None
      | _ \<Rightarrow> None)"

text \<open>
  \<open>processLine\<close>. Besides the client it returns how the waiting promise was settled, if
  it was.
\<close>

definition processLine :: "jsstring \<Rightarrow> SmtpClient \<Rightarrow> SmtpClient \<times> settlement option" where
  "processLine line c =
     (case match_response_line line of
        None \<Rightarrow> (c, None)
      | Some (code, separator) \<Rightarrow>
          (let c1 = c\<lparr>c_currentResponseCode :=
                          (if c_currentResponseCode c = None then Some code
                           else c_currentResponseCode c),
                       c_currentResponseLines := c_currentResponseLines c @ [line]\<rparr>
           in if separator = 0x20 then
                (let response = \<lparr>resp_code = code, resp_lines = c_currentResponseLines c1\<rparr>;
                     c2 = c1\<lparr>c_currentResponseCode := None, c_currentResponseLines := []\<rparr>
                 in case c_pending c2 of
                      Some expected \<Rightarrow>
                        (let c3 = c2\<lparr>c_pending := None\<rparr>
                         in case expected of
                              Some codes \<Rightarrow>
                                if code \<notin> set codes
                                then (c3, Some (Inl (unexpected_response code)))
                                else (c3, Some (Inr response))
                            | None \<Rightarrow> (c3, Some (Inr response)))
                    | None \<Rightarrow>
                        (c2\<lparr>c_queuedResponses := c_queuedResponses c2 @ [response]\<rparr>, None))
              else (c1, None)))"

text \<open>\<open>buffer.indexOf("\n")\<close>, with \<open>None\<close> for -1.\<close>

definition indexOf :: "16 word \<Rightarrow> jsstring \<Rightarrow> nat option" where
  "indexOf c s = (if c \<in> set s then Some (length (takeWhile (\<lambda>x. x \<noteq> c) s)) else None)"

text \<open>\<open>rawLine.replace(/\r?\n$/, "")\<close> on a string that ends with its only LF.\<close>

definition strip_line_end :: "jsstring \<Rightarrow> jsstring" where
  "strip_line_end rawLine =
     (let body = butlast rawLine
      in if body \<noteq> [] \<and> last body = 0x0D then butlast body else body)"

text \<open>
  The loop of \<open>handleData\<close>. \<open>buf\<close> is \<open>this.buffer\<close>, which \<open>processLine\<close> does not
  touch; a promise settles once, so the first settlement is the one that counts.
\<close>

function handleData_loop ::
  "jsstring \<Rightarrow> SmtpClient \<Rightarrow> settlement option \<Rightarrow> SmtpClient \<times> settlement option" where
  "handleData_loop buf c settled =
     (case indexOf 0x0A buf of
        None \<Rightarrow> (c\<lparr>c_buffer := buf\<rparr>, settled)
      | Some index \<Rightarrow>
          (let rawLine = take (index + 1) buf;
               rest = drop (index + 1) buf;
               line = strip_line_end rawLine
           in case processLine line (c\<lparr>c_buffer := rest\<rparr>) of
                (c', r) \<Rightarrow> handleData_loop rest c' (if settled = None then r else settled)))"
  by pat_completeness auto
termination
  by (relation "measure (\<lambda>(buf, c, settled). length buf)")
    (auto simp add: indexOf_def split: if_splits dest: length_pos_if_in_set)

declare handleData_loop.simps [simp del]

definition handleData :: "jsstring \<Rightarrow> SmtpClient \<Rightarrow> SmtpClient \<times> settlement option" where
  "handleData chunk c = handleData_loop (c_buffer c @ chunk) c None"

definition failPending :: "js_error \<Rightarrow> SmtpClient \<Rightarrow> SmtpClient \<times> settlement option" where
  "failPending error c =
     (if c_pending c = None then (c, None) else (c\<lparr>c_pending := None\<rparr>, Some (Inl error)))"

text \<open>The callback of the timer that \<open>readResponse\<close> starts.\<close>

definition timeout_fired :: "SmtpClient \<Rightarrow> SmtpClient \<times> settlement option" where
  "timeout_fired c =
     (if c_pending c = None then (c, None)
      else (c\<lparr>c_pending := None\<rparr>, Some (Inl (Error (js ''SMTP connection timed out.'')))))"

fun deliver :: "socket_event \<Rightarrow> SmtpClient \<Rightarrow> SmtpClient \<times> settlement option" where
  "deliver (Data chunk) c = handleData chunk c"
| "deliver (SocketError error) c = failPending error c"
| "deliver Timeout c = timeout_fired c"

subsection \<open>Waiting for a response\<close>

text \<open>
  The promise of \<open>readResponse\<close> once the slot is registered: events are handled in turn
  until one settles it. The timer is always armed, so when nothing else happens any more
  it fires.
\<close>

fun await_settlement :: "SmtpResponse smtp_op" where
  "await_settlement c [] =
     (case timeout_fired c of
        (c', Some r) \<Rightarrow> (r, c', [])
      | (c', None) \<Rightarrow> (Inl (Error (js ''SMTP connection timed out.'')), c', []))"
| "await_settlement c (ev # evs) =
     (case deliver ev c of
        (c', Some r) \<Rightarrow> (r, c', evs)
      | (c', None) \<Rightarrow> await_settlement c' evs)"

definition readResponse :: "nat list option \<Rightarrow> SmtpResponse smtp_op" where
  "readResponse expected c evs =
     (if c_pending c \<noteq> None
      then (Inl (Error (js ''An SMTP response is already pending.'')), c, evs)
      else case c_queuedResponses c of
             existing # queued \<Rightarrow>
               (let c' = c\<lparr>c_queuedResponses := queued\<rparr>
                in case expected of
                     Some codes \<Rightarrow>
                       if resp_code existing \<notin> set codes
                       then (Inl (unexpected_response (resp_code existing)), c', evs)
                       else (Inr existing, c', evs)
                   | None \<Rightarrow> (Inr existing, c', evs))
           | [] \<Rightarrow> await_settlement (c\<lparr>c_pending := Some expected\<rparr>) evs)"

subsection \<open>Commands\<close>

text \<open>\<open>write\<close> (the private method of the client).\<close>

definition client_write :: "jsstring \<Rightarrow> SmtpClient \<Rightarrow> js_error + SmtpClient" where
  "client_write d c =
     (case c_socket c of
        None \<Rightarrow> Inl (Error (js ''SMTP connection unavailable.''))
      | Some sock \<Rightarrow> Inr (c\<lparr>c_socket := Some (sock\<lparr>tr_written := tr_written sock @ [d]\<rparr>)\<rparr>))"

definition sendCommand :: "jsstring \<Rightarrow> nat list option \<Rightarrow> SmtpResponse smtp_op" where
  "sendCommand command expected c evs =
     (case client_write (command @ CRLF) c of
        Inl e \<Rightarrow> (Inl e, c, evs)
      | Inr c' \<Rightarrow> readResponse expected c' evs)"

definition sendData :: "jsstring \<Rightarrow> unit smtp_op" where
  "sendData d c evs =
     (case client_write (d @ CRLF) c of
        Inl e \<Rightarrow> (Inl e, c, evs)
      | Inr c' \<Rightarrow> (Inr (), c', evs))"


record MailInput =
  mail_from :: jsstring
  mail_to :: jsstring
  mail_message :: jsstring

definition sendMail :: "MailInput \<Rightarrow> unit smtp_op" where
  "sendMail input =
     smtp_then (sendCommand (js ''MAIL FROM:<'' @ mail_from input @ js ''>'') (Some [250]))
       (\<lambda>r1. smtp_then (sendCommand (js ''RCPT TO:<'' @ mail_to input @ js ''>'') (Some [250, 251]))
         (\<lambda>r2. smtp_then (sendCommand (js ''DATA'') (Some [354]))
           (\<lambda>r3. smtp_then (sendData (dotStuff (mail_message input)))
             (\<lambda>u. smtp_then (sendCommand (js ''.'') (Some [250]))
               (\<lambda>r4. smtp_done)))))"


subsection \<open>Notions used to state the properties of the client\<close>

text \<open>
  What the \<open>expected\<close> codes make of an outcome: a response whose code is not among them
  becomes the error \<open>Unexpected SMTP response (code).\<close>; without codes, and for errors,
  nothing changes.
\<close>

definition check_expected :: "nat list option \<Rightarrow> settlement \<Rightarrow> settlement" where
  "check_expected expected r =
     (case r of
        Inl e \<Rightarrow> Inl e
      | Inr response \<Rightarrow>
          (case expected of
             Some codes \<Rightarrow>
               if resp_code response \<notin> set codes
               then Inl (unexpected_response (resp_code response))
               else Inr response
           | None \<Rightarrow> Inr response))"

text \<open>The socket \<open>connect\<close> stores in the client.\<close>

definition fresh_socket :: "SmtpClientOptions \<Rightarrow> transport" where
  "fresh_socket options =
     \<lparr>tr_secure = (security options = Ssl), tr_written = [], tr_ended = False,
      tr_destroyed = False\<rparr>"





subsection \<open>Concrete sessions\<close>

definition example_smtp_options :: SmtpClientOptions where
  "example_smtp_options =
     \<lparr>host = js ''smtp.example.org'', port = 587, security = NoSecurity, timeoutMs = None\<rparr>"

text \<open>A client whose \<open>connect\<close> has succeeded.\<close>

definition example_connected :: SmtpClient where
  "example_connected =
     (new_SmtpClient example_smtp_options)\<lparr>c_socket := Some (fresh_socket example_smtp_options)\<rparr>"

definition example_mail :: MailInput where
  "example_mail =
     \<lparr>mail_from = js ''me@example.org'', mail_to = js ''reader@kindle.com'',
      mail_message =
        js ''Subject: x'' @ CRLF @ CRLF @ js ''.hidden'' @ [0x0A] @ js ''.'' @ CRLF\<rparr>"




definition events_rejected_recipient :: "socket_event list" where
  "events_rejected_recipient =
     [Data (js ''250 OK'' @ CRLF), Data (js ''550 mailbox unavailable'' @ CRLF)]"



text \<open>An input of the message encoder, two readings of the clock and a second identifier.\<close>

definition example_mime_input :: MimeInput where
  "example_mime_input =
     \<lparr>mi_title = js ''Hello'', mi_filename = js ''Hello.epub'',
      mi_epubBuffer = [0x50, 0x4B, 0x03, 0x04], mi_senderEmail = js ''me@example.org'',
      mi_kindleEmail = js ''reader@kindle.com''\<rparr>"

definition example_now :: jsstring where
  "example_now = js ''Tue, 03 Nov 2026 06:41:00 GMT''"

definition example_later :: jsstring where
  "example_later = js ''Tue, 03 Nov 2026 06:41:01 GMT''"

definition example_uuid2 :: jsstring where
  "example_uuid2 = js ''9b2f6c1e-5a0d-4c3e-8f7a-0d1e2f3a4b5c''"

section \<open>Correctness of the checksum\<close>

lemma crc_table_round_ref: "crc_table_round = crc32_ref_shift"
  by (rule ext) (simp add: crc_table_round_def crc32_ref_shift_def and_one_eq mod_2_eq_odd bit_0 xor.commute)

lemma ref_shift_xor: "crc32_ref_shift (a XOR b) = crc32_ref_shift a XOR crc32_ref_shift b"
  by (simp add: crc32_ref_shift_def bit_xor_iff ac_simps)

lemma ref_shift_pow_xor:
  "(crc32_ref_shift ^^ n) (a XOR b) = (crc32_ref_shift ^^ n) a XOR (crc32_ref_shift ^^ n) b"
  by (induction n arbitrary: a b) (simp_all add: funpow_swap1 ref_shift_xor)

lemma ref_shift_pow_high: "take_bit n a = 0 \<Longrightarrow> (crc32_ref_shift ^^ n) a = drop_bit n a"
proof (induction n arbitrary: a)
  case 0
  then show ?case by simp
next
  case (Suc n)
  have "bit (take_bit (Suc n) a) 0 = bit a 0"
    by (simp add: bit_take_bit_iff)
  with Suc.prems have b0: "\<not> bit a 0"
    by simp
  have "take_bit n (drop_bit 1 a) = drop_bit 1 (take_bit (Suc n) a)"
    by (simp add: take_bit_drop_bit)
  with Suc.prems have "take_bit n (drop_bit 1 a) = 0"
    by simp
  then have "(crc32_ref_shift ^^ n) (drop_bit 1 a) = drop_bit n (drop_bit 1 a)"
    by (rule Suc.IH)
  moreover have "crc32_ref_shift a = drop_bit 1 a"
    using b0 by (simp add: crc32_ref_shift_def)
  ultimately show ?case by (simp add: funpow_swap1)
qed

lemma word_split_low8: "(x::uint32) = take_bit 8 x XOR push_bit 8 (drop_bit 8 x)"
  by (rule bit_eqI) (auto simp add: bit_xor_iff bit_take_bit_iff bit_push_bit_iff bit_drop_bit_eq)

lemma ref_shift8:
  "(crc32_ref_shift ^^ 8) x = drop_bit 8 x XOR (crc32_ref_shift ^^ 8) (take_bit 8 x)"
proof -
  have "take_bit 8 (push_bit 8 (drop_bit 8 x)) = (0::uint32)"
    by (simp add: take_bit_push_bit)
  then have "(crc32_ref_shift ^^ 8) (push_bit 8 (drop_bit 8 x)) = drop_bit 8 (push_bit 8 (drop_bit 8 x))"
    by (rule ref_shift_pow_high)
  also have "\<dots> = drop_bit 8 x"
    by (rule bit_eqI) (auto simp add: bit_drop_bit_eq bit_push_bit_iff dest: bit_imp_le_length)
  finally have h: "(crc32_ref_shift ^^ 8) (push_bit 8 (drop_bit 8 x)) = drop_bit 8 x" .
  have "(crc32_ref_shift ^^ 8) x = (crc32_ref_shift ^^ 8) (take_bit 8 x XOR push_bit 8 (drop_bit 8 x))"
    using word_split_low8 [of x] by simp
  then show ?thesis by (simp only: ref_shift_pow_xor h xor.commute)
qed

lemma CRC_TABLE_lookup: "CRC_TABLE ! unat (x AND 0xff) = (crc32_ref_shift ^^ 8) (take_bit 8 x)"
proof -
  have m: "x AND 0xff = take_bit 8 x"
    using take_bit_eq_mask [of 8 x] by (simp add: mask_eq_exp_minus_1)
  have lt: "unat (take_bit 8 x) < 256"
    using unsigned_take_bit_eq [of 8 x, where ?'a = nat] take_bit_nat_less_exp [of 8 "unat x"] by simp
  show ?thesis
    unfolding m CRC_TABLE_def using lt
    by (simp add: crc_table_entry_def crc_table_round_ref)
qed

lemma crc32_step_ref: "crc32_step crc b = crc32_ref_byte crc b"
proof -
  have "drop_bit 8 (ucast b :: uint32) = 0"
    by (rule bit_eqI) (auto simp add: bit_drop_bit_eq bit_ucast_iff dest: bit_imp_le_length)
  then show ?thesis
    by (simp add: crc32_step_def crc32_ref_byte_def CRC_TABLE_lookup ref_shift8 [of "crc XOR ucast b"])
qed

lemma crc32_eq_reference: "crc32 bs = crc32_reference bs"
proof -
  have f: "foldl crc32_step c bs = foldl crc32_ref_byte c bs" for c
    by (induction bs arbitrary: c) (simp_all add: crc32_step_ref)
  have m: "(0xffffffff :: uint32) = - 1" by simp
  show ?thesis
    by (simp only: crc32_def crc32_reference_def f m bit.xor_one_right)
qed

lemma funpow_8: "(f ^^ 8) x = f (f (f (f (f (f (f (f x)))))))"
  by (simp add: eval_nat_numeral)

lemma crc32_reference_check:
  "crc32_reference [0x31, 0x32, 0x33, 0x34, 0x35, 0x36, 0x37, 0x38, 0x39] = 0xCBF43926"
  by (simp add: crc32_reference_def crc32_ref_byte_def funpow_8 crc32_ref_shift_def bit_0)

text \<open>
  Claim C1. \<open>crc32\<close> is the standard table-driven CRC-32: on every byte sequence it
  returns the value of the bit-serial reference (all-ones start, final inversion);
  the checksum of the empty input is 0 and that of the ASCII bytes of
  \<open>123456789\<close> is \<open>0xCBF43926\<close>.
\<close>

theorem crc32_is_ieee_crc32:
  "crc32 bs = crc32_reference bs
   \<and> crc32 [] = 0
   \<and> crc32 (ascii ''123456789'') = 0xCBF43926"
proof -
  have e: "crc32 [] = 0"
    by (simp add: crc32_def)
  have a: "ascii ''123456789'' = [0x31, 0x32, 0x33, 0x34, 0x35, 0x36, 0x37, 0x38, 0x39]"
    by (simp add: ascii_def)
  have c: "crc32 (ascii ''123456789'') = 0xCBF43926"
    unfolding a by (simp only: crc32_eq_reference crc32_reference_check)
  from e c show ?thesis
    by (simp only: crc32_eq_reference simp_thms)
qed

section \<open>The archive writer\<close>

subsection \<open>Buffer writes\<close>

lemma length_le16 [simp]: "length (le16 v) = 2"
  by (simp add: le16_def)

lemma length_le32 [simp]: "length (le32 v) = 4"
  by (simp add: le32_def)

lemma writeUInt16LE_at:
  "writeUInt16LE v (length done) (done @ replicate (2 + m) 0) =
     (if v \<le> 65535 then Inr ((done @ le16 v) @ replicate m 0) else Inl RangeError)"
  by (simp add: writeUInt16LE_def le16_def list_update_append numeral_2_eq_2)

lemma replicate_4_plus: "replicate (4 + m) x = x # x # x # x # replicate m x"
proof -
  have "4 + m = Suc (Suc (Suc (Suc m)))" by simp
  then show ?thesis by (simp only: replicate_Suc)
qed

lemma writeUInt32LE_at:
  "writeUInt32LE v (length done) (done @ replicate (4 + m) 0) =
     (if v \<le> 4294967295 then Inr ((done @ le32 v) @ replicate m 0) else Inl RangeError)"
  by (simp add: writeUInt32LE_def le32_def list_update_append replicate_4_plus numeral_2_eq_2
      numeral_3_eq_3)

lemma case_if_Inr:
  "(case (if c then Inr x else Inl e) of Inl e' \<Rightarrow> Inl e' | Inr y \<Rightarrow> f y) =
     (if c then f x else Inl e)"
  by simp

lemma apply_writes_contiguous:
  "writes_contiguous (length done) ws \<Longrightarrow>
   apply_writes ws (done @ replicate (length (concat (map write_bytes ws)) + m) 0) =
     (if list_all write_fits ws then Inr (done @ concat (map write_bytes ws) @ replicate m 0)
      else Inl RangeError)"
proof (induction ws arbitrary: "done")
  case Nil
  then show ?case by simp
next
  case (Cons w ws)
  let ?k = "length (concat (map write_bytes ws)) + m"
  show ?case
  proof (cases w)
    case (U16 v off)
    with Cons.prems have off: "off = length done"
      and c: "writes_contiguous (length (done @ le16 v)) ws"
      by simp_all
    have r: "length (concat (map write_bytes (w # ws))) + m = 2 + ?k"
      using U16 by simp
    have "apply_writes (w # ws) (done @ replicate (2 + ?k) 0) =
            (if v \<le> 65535 then apply_writes ws ((done @ le16 v) @ replicate ?k 0)
             else Inl RangeError)"
      by (simp only: U16 off apply_writes.simps apply_write.simps writeUInt16LE_at case_if_Inr)
    also have "\<dots> = (if v \<le> 65535 then
                (if list_all write_fits ws
                 then Inr ((done @ le16 v) @ concat (map write_bytes ws) @ replicate m 0)
                 else Inl RangeError)
             else Inl RangeError)"
      by (simp only: Cons.IH [OF c])
    also have "\<dots> = (if list_all write_fits (w # ws)
                 then Inr (done @ concat (map write_bytes (w # ws)) @ replicate m 0)
                 else Inl RangeError)"
      using U16 by simp
    finally show ?thesis
      by (simp only: r)
  next
    case (U32 v off)
    with Cons.prems have off: "off = length done"
      and c: "writes_contiguous (length (done @ le32 v)) ws"
      by simp_all
    have r: "length (concat (map write_bytes (w # ws))) + m = 4 + ?k"
      using U32 by simp
    have "apply_writes (w # ws) (done @ replicate (4 + ?k) 0) =
            (if v \<le> 4294967295 then apply_writes ws ((done @ le32 v) @ replicate ?k 0)
             else Inl RangeError)"
      by (simp only: U32 off apply_writes.simps apply_write.simps writeUInt32LE_at case_if_Inr)
    also have "\<dots> = (if v \<le> 4294967295 then
                (if list_all write_fits ws
                 then Inr ((done @ le32 v) @ concat (map write_bytes ws) @ replicate m 0)
                 else Inl RangeError)
             else Inl RangeError)"
      by (simp only: Cons.IH [OF c])
    also have "\<dots> = (if list_all write_fits (w # ws)
                 then Inr (done @ concat (map write_bytes (w # ws)) @ replicate m 0)
                 else Inl RangeError)"
      using U32 by simp
    finally show ?thesis
      by (simp only: r)
  qed
qed

lemma apply_writes_alloc:
  "writes_contiguous 0 ws \<Longrightarrow> n = length (concat (map write_bytes ws)) + m \<Longrightarrow>
   apply_writes ws (alloc n) =
     (if list_all write_fits ws then Inr (concat (map write_bytes ws) @ replicate m 0)
      else Inl RangeError)"
  using apply_writes_contiguous [of "[]" ws m] by (simp only: alloc_def list.size append_Nil)

lemma crc32_fits: "unat (c :: uint32) \<le> 4294967295"
  using unsigned_less [of c, where ?'a = nat] by simp

lemma buffer_copy_tail:
  "length target = k + length nm \<Longrightarrow> buffer_copy nm target k = take k target @ nm"
  by (simp add: buffer_copy_def)

lemma localHeader_of_bytes:
  "localHeader_of nb d c =
     (if length d \<le> 4294967295 \<and> length nb \<le> 65535
      then Inr (le32 0x04034b50 @ le16 20 @ le16 0 @ le16 0 @ le16 0 @ le16 0
                @ le32 (unat c) @ le32 (length d) @ le32 (length d)
                @ le16 (length nb) @ le16 0 @ nb)
      else Inl RangeError)"
proof -
  let ?ws = "[U32 0x04034b50 0, U16 20 4, U16 0 6, U16 0 8, U16 0 10, U16 0 12,
         U32 (unat c) 14, U32 (length d) 18, U32 (length d) 22,
         U16 (length nb) 26, U16 0 28]"
  have aw: "apply_writes ?ws (alloc (30 + length nb)) =
     (if list_all write_fits ?ws then Inr (concat (map write_bytes ?ws) @ replicate (length nb) 0)
      else Inl RangeError)"
    by (rule apply_writes_alloc) simp_all
  have fits: "list_all write_fits ?ws \<longleftrightarrow> length d \<le> 4294967295 \<and> length nb \<le> 65535"
    using crc32_fits [of c] by simp
  show ?thesis
    unfolding localHeader_of_def aw fits
    by (simp add: buffer_copy_tail)
qed

lemma centralHeader_of_bytes:
  "centralHeader_of nb d c off =
     (if length d \<le> 4294967295 \<and> length nb \<le> 65535 \<and> off \<le> 4294967295
      then Inr (le32 0x02014b50 @ le16 20 @ le16 20 @ le16 0 @ le16 0 @ le16 0 @ le16 0
                @ le32 (unat c) @ le32 (length d) @ le32 (length d)
                @ le16 (length nb) @ le16 0 @ le16 0 @ le16 0 @ le16 0 @ le32 0 @ le32 off
                @ nb)
      else Inl RangeError)"
proof -
  let ?ws = "[U32 0x02014b50 0, U16 20 4, U16 20 6, U16 0 8, U16 0 10, U16 0 12, U16 0 14,
         U32 (unat c) 16, U32 (length d) 20, U32 (length d) 24,
         U16 (length nb) 28, U16 0 30, U16 0 32, U16 0 34, U16 0 36,
         U32 0 38, U32 off 42]"
  have aw: "apply_writes ?ws (alloc (46 + length nb)) =
     (if list_all write_fits ?ws then Inr (concat (map write_bytes ?ws) @ replicate (length nb) 0)
      else Inl RangeError)"
    by (rule apply_writes_alloc) simp_all
  have fits: "list_all write_fits ?ws \<longleftrightarrow>
      length d \<le> 4294967295 \<and> length nb \<le> 65535 \<and> off \<le> 4294967295"
    using crc32_fits [of c] by simp
  show ?thesis
    unfolding centralHeader_of_def aw fits
    by (simp add: buffer_copy_tail)
qed

lemma endRecord_of_bytes:
  "endRecord_of count cl off =
     (if count \<le> 65535 \<and> cl \<le> 4294967295 \<and> off \<le> 4294967295
      then Inr (end_record_bytes count cl off) else Inl RangeError)"
proof -
  let ?ws = "[U32 0x06054b50 0, U16 0 4, U16 0 6, U16 count 8, U16 count 10,
        U32 cl 12, U32 off 16, U16 0 20]"
  have aw: "apply_writes ?ws (alloc 22) =
     (if list_all write_fits ?ws then Inr (concat (map write_bytes ?ws) @ replicate 0 0)
      else Inl RangeError)"
    by (rule apply_writes_alloc) simp_all
  have fits: "list_all write_fits ?ws \<longleftrightarrow>
      count \<le> 65535 \<and> cl \<le> 4294967295 \<and> off \<le> 4294967295"
    by simp
  show ?thesis
    unfolding endRecord_of_def aw fits
    by (simp add: end_record_bytes_def)
qed

subsection \<open>The loop of \<open>buildZip\<close> and its result\<close>

lemma length_local_header_bytes: "length (local_header_bytes e) = 30 + name_length e"
  by (simp add: local_header_bytes_def name_length_def)

lemma length_central_header_bytes: "length (central_header_bytes e off) = central_record_size e"
  by (simp add: central_header_bytes_def central_record_size_def name_length_def)

lemma zip_entry_step_eq:
  "zip_entry_step st e =
     (if data_length e \<le> 4294967295 \<and> name_length e \<le> 65535 \<and> offset st \<le> 4294967295
      then Inr \<lparr>fileChunks = fileChunks st @ [local_header_bytes e, entry_data e],
                centralChunks = centralChunks st @ [central_header_bytes e (offset st)],
                offset = offset st + local_record_size e\<rparr>
      else Inl RangeError)"
  by (simp add: zip_entry_step_def Let_def localHeader_of_bytes centralHeader_of_bytes
      local_header_bytes_def central_header_bytes_def local_record_size_def
      name_length_def data_length_def)

lemma zip_loop_eq:
  "zip_loop es st =
     (if zip_loop_ok es (offset st)
      then Inr \<lparr>fileChunks = fileChunks st @ local_records es,
                centralChunks = centralChunks st @ central_records es (offset st),
                offset = offset st + sum_list (map local_record_size es)\<rparr>
      else Inl RangeError)"
proof (induction es arbitrary: st)
  case Nil
  then show ?case by simp
next
  case (Cons e es)
  show ?case
    by (simp add: zip_entry_step_eq Cons.IH add.assoc)
qed

lemma length_concat_central_records:
  "length (concat (central_records es off)) = sum_list (map central_record_size es)"
  by (induction es arbitrary: off) (simp_all add: length_central_header_bytes)

lemma length_concat_local_records:
  "length (concat (local_records es)) = sum_list (map local_record_size es)"
  by (induction es)
    (simp_all add: length_local_header_bytes local_record_size_def data_length_def)

lemma buildZip_eq: "buildZip es = (if zip_ok es then Inr (zip_bytes es) else Inl RangeError)"
  by (simp add: buildZip_def zip_loop_eq Let_def endRecord_of_bytes
      length_concat_central_records zip_ok_def zip_bytes_def)

lemma buildZip_Inr: "buildZip es = Inr out \<Longrightarrow> zip_ok es \<and> out = zip_bytes es"
  by (simp add: buildZip_eq split: if_splits)

subsection \<open>Reading the fields back\<close>

lemma le16_value:
  assumes "v \<le> 65535"
  shows "unat (of_nat v :: byte) + 256 * unat (of_nat (v div 256) :: byte) = v"
proof -
  have "v div 256 < 256" using assms by simp
  then show ?thesis by (simp add: unat_of_nat)
qed

lemma le32_value:
  assumes "v \<le> 4294967295"
  shows "unat (of_nat v :: byte) + 256 * unat (of_nat (v div 256) :: byte)
         + 65536 * unat (of_nat (v div 65536) :: byte)
         + 16777216 * unat (of_nat (v div 16777216) :: byte) = v"
proof -
  define q1 q2 q3 r0 r1 r2 where "q1 = v div 256" and "q2 = v div 65536" and "q3 = v div 16777216"
    and "r0 = v mod 256" and "r1 = v div 256 mod 256" and "r2 = v div 65536 mod 256"
  have a: "q3 < 256" using assms by (simp add: q3_def)
  have b: "q2 = q3 * 256 + r2"
    using div_mult2_eq [of v 65536 256] by (simp add: q2_def q3_def r2_def)
  have c: "q1 = q2 * 256 + r1"
    using div_mult2_eq [of v 256 256] by (simp add: q1_def q2_def r1_def)
  have d: "v = q1 * 256 + r0" by (simp add: q1_def r0_def)
  have "r0 + 256 * r1 + 65536 * r2 + 16777216 * q3 = v"
    using b c d by arith
  moreover have "q3 mod 256 = q3" using a by simp
  ultimately show ?thesis
    by (simp add: unat_of_nat q1_def q2_def q3_def r0_def r1_def r2_def)
qed

lemma readUInt16LE_le16: "v \<le> 65535 \<Longrightarrow> readUInt16LE (le16 v @ post) 0 = v"
  by (simp add: readUInt16LE_def le16_def le16_value)

lemma readUInt32LE_le32: "v \<le> 4294967295 \<Longrightarrow> readUInt32LE (le32 v @ post) 0 = v"
  by (simp add: readUInt32LE_def le32_def le32_value numeral_2_eq_2 numeral_3_eq_3)

lemma readUInt16LE_drop: "readUInt16LE buf (k + i) = readUInt16LE (drop k buf) i" if "k + i + 2 \<le> length buf"
  using that by (simp add: readUInt16LE_def add.assoc)

lemma readUInt32LE_drop: "readUInt32LE buf (k + i) = readUInt32LE (drop k buf) i" if "k + i + 4 \<le> length buf"
  using that by (simp add: readUInt32LE_def add.assoc)


lemma readUInt16LE_field:
  "numeral i + 2 \<le> length h \<Longrightarrow> readUInt16LE h (numeral i) = readUInt16LE (drop (numeral i) h) 0"
  using readUInt16LE_drop [of "numeral i" 0 h] by simp

lemma readUInt32LE_field:
  "numeral i + 4 \<le> length h \<Longrightarrow> readUInt32LE h (numeral i) = readUInt32LE (drop (numeral i) h) 0"
  using readUInt32LE_drop [of "numeral i" 0 h] by simp

lemma local_header_fields:
  assumes "data_length e \<le> 4294967295"
  shows "readUInt16LE (local_header_bytes e @ rest) 4 = 20
       \<and> readUInt16LE (local_header_bytes e @ rest) 6 = 0
       \<and> readUInt32LE (local_header_bytes e @ rest) 18 = data_length e
       \<and> readUInt32LE (local_header_bytes e @ rest) 22 = data_length e"
  using assms
  by (simp add: readUInt16LE_field readUInt32LE_field local_header_bytes_def
      readUInt16LE_le16 readUInt32LE_le32)

lemma central_header_fields:
  assumes "data_length e \<le> 4294967295" and "off \<le> 4294967295"
  shows "readUInt16LE (central_header_bytes e off @ rest) 4 = 20
       \<and> readUInt16LE (central_header_bytes e off @ rest) 6 = 20
       \<and> readUInt16LE (central_header_bytes e off @ rest) 8 = 0
       \<and> readUInt32LE (central_header_bytes e off @ rest) 20 = data_length e
       \<and> readUInt32LE (central_header_bytes e off @ rest) 24 = data_length e
       \<and> readUInt32LE (central_header_bytes e off @ rest) 42 = off"
  using assms
  by (simp add: readUInt16LE_field readUInt32LE_field central_header_bytes_def
      readUInt16LE_le16 readUInt32LE_le32)

lemma local_records_append: "local_records (xs @ ys) = local_records xs @ local_records ys"
  by (induction xs) simp_all

lemma central_records_append:
  "central_records (xs @ ys) off =
     central_records xs off @ central_records ys (off + sum_list (map local_record_size xs))"
  by (induction xs arbitrary: off) (simp_all add: add.assoc)

lemma zip_loop_ok_append:
  "zip_loop_ok (xs @ ys) off \<longleftrightarrow>
     zip_loop_ok xs off \<and> zip_loop_ok ys (off + sum_list (map local_record_size xs))"
  by (induction xs arbitrary: off) (simp_all add: add.assoc)

lemma drop_local_records:
  assumes "n < length es"
  shows "drop (local_offset es n) (concat (local_records es)) =
           local_header_bytes (es ! n) @ entry_data (es ! n)
           @ concat (local_records (drop (Suc n) es))"
proof -
  have es: "es = take n es @ es ! n # drop (Suc n) es"
    using assms by (simp add: id_take_nth_drop)
  have "concat (local_records es) =
          concat (local_records (take n es))
          @ (local_header_bytes (es ! n) @ entry_data (es ! n)
             @ concat (local_records (drop (Suc n) es)))"
    by (subst es) (simp add: local_records_append)
  moreover have "length (concat (local_records (take n es))) = local_offset es n"
    by (simp add: length_concat_local_records local_offset_def)
  ultimately show ?thesis by simp
qed

lemma drop_central_records:
  assumes "n < length es"
  shows "drop (sum_list (map central_record_size (take n es))) (concat (central_records es 0)) =
           central_header_bytes (es ! n) (local_offset es n)
           @ concat (central_records (drop (Suc n) es) (local_offset es (Suc n)))"
proof -
  have es: "es = take n es @ es ! n # drop (Suc n) es"
    using assms by (simp add: id_take_nth_drop)
  have sn: "local_offset es (Suc n) = local_offset es n + local_record_size (es ! n)"
    using assms by (simp add: local_offset_def take_Suc_conv_app_nth)
  have "concat (central_records es 0) =
          concat (central_records (take n es) 0)
          @ (central_header_bytes (es ! n) (local_offset es n)
             @ concat (central_records (drop (Suc n) es) (local_offset es (Suc n))))"
    by (subst es) (simp add: central_records_append local_offset_def [symmetric] sn)
  moreover have "length (concat (central_records (take n es) 0))
                   = sum_list (map central_record_size (take n es))"
    by (simp add: length_concat_central_records)
  ultimately show ?thesis by simp
qed

lemma zip_ok_entry:
  assumes "zip_ok es" and "n < length es"
  shows "data_length (es ! n) \<le> 4294967295 \<and> name_length (es ! n) \<le> 65535
         \<and> local_offset es n \<le> 4294967295"
proof -
  have es: "es = take n es @ es ! n # drop (Suc n) es"
    using assms by (simp add: id_take_nth_drop)
  from assms have "zip_loop_ok es 0" by (simp add: zip_ok_def)
  then have "zip_loop_ok (take n es @ es ! n # drop (Suc n) es) 0"
    using es by simp
  then show ?thesis
    by (simp add: zip_loop_ok_append local_offset_def)
qed

lemma readUInt32LE_in_record:
  assumes "drop k out = h @ rest" and "i + 4 \<le> length h"
  shows "readUInt32LE out (k + i) = readUInt32LE (h @ rest) i"
proof -
  have "length (drop k out) = length h + length rest"
    using assms(1) by simp
  with assms(2) have "k + i + 4 \<le> length out"
    by simp
  then show ?thesis
    using assms(1) by (simp add: readUInt32LE_drop)
qed

lemma readUInt16LE_in_record:
  assumes "drop k out = h @ rest" and "i + 2 \<le> length h"
  shows "readUInt16LE out (k + i) = readUInt16LE (h @ rest) i"
proof -
  have "length (drop k out) = length h + length rest"
    using assms(1) by simp
  with assms(2) have "k + i + 2 \<le> length out"
    by simp
  then show ?thesis
    using assms(1) by (simp add: readUInt16LE_drop)
qed

lemma drop_zip_bytes_local:
  assumes "n < length es"
  shows "\<exists>rest. drop (local_offset es n) (zip_bytes es) = local_header_bytes (es ! n) @ rest"
proof -
  let ?A = "concat (local_records es)"
  have d: "drop (local_offset es n) ?A =
             local_header_bytes (es ! n) @ entry_data (es ! n)
             @ concat (local_records (drop (Suc n) es))"
    using assms by (rule drop_local_records)
  have "length (drop (local_offset es n) ?A) \<ge> 30"
    unfolding d by (simp add: length_local_header_bytes)
  then have "local_offset es n \<le> length ?A"
    by simp
  then show ?thesis
    by (simp add: zip_bytes_def d)
qed

lemma drop_zip_bytes_central:
  assumes "n < length es"
  shows "\<exists>rest. drop (central_offset es n) (zip_bytes es) =
           central_header_bytes (es ! n) (local_offset es n) @ rest"
proof -
  let ?A = "concat (local_records es)"
  let ?B = "concat (central_records es 0)"
  let ?c = "sum_list (map central_record_size (take n es))"
  have d: "drop ?c ?B =
             central_header_bytes (es ! n) (local_offset es n)
             @ concat (central_records (drop (Suc n) es) (local_offset es (Suc n)))"
    using assms by (rule drop_central_records)
  have "length (drop ?c ?B) \<ge> 46"
    unfolding d by (simp add: length_central_header_bytes central_record_size_def)
  then have c: "?c \<le> length ?B"
    by simp
  have "central_offset es n = length ?A + ?c"
    by (simp add: central_offset_def length_concat_local_records)
  then show ?thesis
    using c by (simp add: zip_bytes_def d)
qed

text \<open>
  Claim C3. In the bytes \<open>buildZip\<close> returns, for entry \<open>n\<close>: the offset field of its
  central-directory record (at 42) holds the sum over the entries before it of
  30 + name length + data length, which is where its local header starts; both size
  fields equal the length of the data, in the local header (at 18 and 22) and in the
  central record (at 20 and 24); the flag fields (local 6, central 8) are zero; the
  version fields (local 4, central 4 and 6) are 20.
\<close>

theorem buildZip_offsets_and_sizes:
  assumes "buildZip entries = Inr out" and "n < length entries"
  shows "readUInt32LE out (central_offset entries n + 42) =
           (\<Sum>e\<leftarrow>take n entries. 30 + length (utf8_encode (entry_name e)) + length (entry_data e))
       \<and> readUInt32LE out (local_offset entries n + 18) = length (entry_data (entries ! n))
       \<and> readUInt32LE out (local_offset entries n + 22) = length (entry_data (entries ! n))
       \<and> readUInt32LE out (central_offset entries n + 20) = length (entry_data (entries ! n))
       \<and> readUInt32LE out (central_offset entries n + 24) = length (entry_data (entries ! n))
       \<and> readUInt16LE out (local_offset entries n + 6) = 0
       \<and> readUInt16LE out (central_offset entries n + 8) = 0
       \<and> readUInt16LE out (local_offset entries n + 4) = 20
       \<and> readUInt16LE out (central_offset entries n + 4) = 20
       \<and> readUInt16LE out (central_offset entries n + 6) = 20"
proof -
  from assms(1) have ok: "zip_ok entries" and out: "out = zip_bytes entries"
    using buildZip_Inr by blast+
  let ?e = "entries ! n"
  let ?lh = "local_header_bytes ?e"
  let ?ch = "central_header_bytes ?e (local_offset entries n)"
  from zip_ok_entry [OF ok assms(2)]
  have dl: "data_length ?e \<le> 4294967295" and lo: "local_offset entries n \<le> 4294967295"
    by simp_all
  obtain lrest where l: "drop (local_offset entries n) out = ?lh @ lrest"
    using drop_zip_bytes_local [OF assms(2)] out by blast
  obtain crest where c: "drop (central_offset entries n) out = ?ch @ crest"
    using drop_zip_bytes_central [OF assms(2)] out by blast
  have ll: "length ?lh \<ge> 30"
    by (simp add: length_local_header_bytes)
  have lc: "length ?ch \<ge> 46"
    by (simp add: length_central_header_bytes central_record_size_def)
  have sum: "local_offset entries n =
      (\<Sum>e\<leftarrow>take n entries. 30 + length (utf8_encode (entry_name e)) + length (entry_data e))"
  proof -
    have "local_record_size = (\<lambda>e. 30 + length (utf8_encode (entry_name e)) + length (entry_data e))"
      by (rule ext) (simp add: local_record_size_def name_length_def data_length_def)
    then show ?thesis by (simp add: local_offset_def)
  qed
  have lf: "readUInt32LE out (local_offset entries n + 18) = data_length ?e"
       "readUInt32LE out (local_offset entries n + 22) = data_length ?e"
       "readUInt16LE out (local_offset entries n + 6) = 0"
       "readUInt16LE out (local_offset entries n + 4) = 20"
    using ll local_header_fields [OF dl, of lrest]
    by (simp_all add: readUInt32LE_in_record [OF l] readUInt16LE_in_record [OF l])
  have cf: "readUInt32LE out (central_offset entries n + 42) = local_offset entries n"
       "readUInt32LE out (central_offset entries n + 20) = data_length ?e"
       "readUInt32LE out (central_offset entries n + 24) = data_length ?e"
       "readUInt16LE out (central_offset entries n + 8) = 0"
       "readUInt16LE out (central_offset entries n + 4) = 20"
       "readUInt16LE out (central_offset entries n + 6) = 20"
    using lc central_header_fields [OF dl lo, of crest]
    by (simp_all add: readUInt32LE_in_record [OF c] readUInt16LE_in_record [OF c])
  show ?thesis
    unfolding lf cf by (simp add: sum data_length_def)
qed


lemma example_entries_ok: "zip_ok example_entries"
  by (simp add: zip_ok_def example_entries_def local_record_size_def central_record_size_def
      name_length_def data_length_def js_def utf8_unit_def utf8_code_point_def
      is_high_surrogate_def is_low_surrogate_def)

lemma example_entries_offsets:
  "local_offset example_entries 1 = 34 \<and> central_offset example_entries 1 = 115"
  by (simp add: local_offset_def central_offset_def example_entries_def local_record_size_def
      central_record_size_def name_length_def data_length_def js_def utf8_unit_def
      utf8_code_point_def is_high_surrogate_def is_low_surrogate_def)

theorem buildZip_offsets_and_sizes_witness:
  "buildZip example_entries = Inr (zip_bytes example_entries)
   \<and> (1::nat) < length example_entries
   \<and> readUInt32LE (zip_bytes example_entries) (115 + 42) = 34
   \<and> readUInt32LE (zip_bytes example_entries) (34 + 18) = 2
   \<and> readUInt32LE (zip_bytes example_entries) (34 + 22) = 2
   \<and> readUInt32LE (zip_bytes example_entries) (115 + 20) = 2
   \<and> readUInt32LE (zip_bytes example_entries) (115 + 24) = 2
   \<and> readUInt16LE (zip_bytes example_entries) (34 + 6) = 0
   \<and> readUInt16LE (zip_bytes example_entries) (115 + 8) = 0
   \<and> readUInt16LE (zip_bytes example_entries) (34 + 4) = 20
   \<and> readUInt16LE (zip_bytes example_entries) (115 + 4) = 20
   \<and> readUInt16LE (zip_bytes example_entries) (115 + 6) = 20"
proof -
  have b: "buildZip example_entries = Inr (zip_bytes example_entries)"
    by (simp add: buildZip_eq example_entries_ok)
  have n: "(1::nat) < length example_entries"
    by (simp add: example_entries_def)
  have s: "(\<Sum>e\<leftarrow>take 1 example_entries.
              30 + length (utf8_encode (entry_name e)) + length (entry_data e)) = 34"
    by (simp add: example_entries_def js_def utf8_unit_def utf8_code_point_def
      is_high_surrogate_def is_low_surrogate_def)
  have d: "length (entry_data (example_entries ! 1)) = 2"
    by (simp add: example_entries_def)
  from buildZip_offsets_and_sizes [OF b n] b n show ?thesis
    unfolding s d by (simp only: example_entries_offsets simp_thms)
qed

section \<open>The container builder\<close>

subsection \<open>String lemmas\<close>

lemma length_js [simp]: "length (js s) = length s"
  by (simp add: js_def)

lemma length_utf8_code_point: "length (utf8_code_point cp) \<le> 4"
  by (simp add: utf8_code_point_def)

lemma length_utf8_unit: "length (utf8_unit c) \<le> 3"
  using unsigned_less [of c, where ?'a = nat]
  by (simp add: utf8_unit_def utf8_code_point_def)

lemma length_utf8_encode_le: "length (utf8_encode s) \<le> 3 * length s"
proof (induction s rule: utf8_encode.induct)
  case 1
  then show ?case by simp
next
  case (2 c)
  then show ?case using length_utf8_unit [of c] by simp
next
  case (3 c d cs)
  then show ?case
    using length_utf8_unit [of c]
      length_utf8_code_point [of "0x10000 + (unat c - 0xD800) * 0x400 + (unat d - 0xDC00)"]
    by (auto simp del: utf8_encode.simps(2) simp add: utf8_encode.simps(3) split: if_splits)
qed

subsection \<open>The first entry\<close>

lemma utf8_mimetype_name: "utf8_encode (js ''mimetype'') = ascii ''mimetype''"
  by (simp add: js_def ascii_def utf8_unit_def utf8_code_point_def is_high_surrogate_def
      is_low_surrogate_def)

lemma utf8_mimetype_data:
  "utf8_encode (js ''application/epub+zip'') = ascii ''application/epub+zip''"
  by (simp add: js_def ascii_def utf8_unit_def utf8_code_point_def is_high_surrogate_def
      is_low_surrogate_def)

lemma crc32_mimetype: "crc32 (ascii ''application/epub+zip'') = 0x2CAB616F"
  unfolding crc32_eq_reference
  by (simp add: ascii_def crc32_reference_def crc32_ref_byte_def funpow_8 crc32_ref_shift_def bit_0)

lemma epub_entries_first: "\<exists>rest. epub_entries uuid options = mimetype_entry # rest"
  by (simp add: epub_entries_def Let_def mimetype_entry_def utf8_mimetype_data)

lemma local_header_mimetype:
  "local_header_bytes mimetype_entry =
     [0x50, 0x4B, 0x03, 0x04, 0x14, 0, 0, 0, 0, 0, 0, 0, 0, 0, 0x6F, 0x61, 0xAB, 0x2C,
      20, 0, 0, 0, 20, 0, 0, 0, 8, 0, 0, 0] @ ascii ''mimetype''"
proof -
  have c: "unat (crc32 (entry_data mimetype_entry)) = 0x2CAB616F"
    by (simp add: mimetype_entry_def crc32_mimetype)
  have n: "utf8_encode (entry_name mimetype_entry) = ascii ''mimetype''"
    by (simp add: mimetype_entry_def utf8_mimetype_name)
  have nl: "name_length mimetype_entry = 8"
    by (simp add: name_length_def n) (simp add: ascii_def)
  have dl: "data_length mimetype_entry = 20"
    by (simp add: data_length_def mimetype_entry_def ascii_def)
  show ?thesis
    unfolding local_header_bytes_def c n nl dl
    by (simp add: le16_def le32_def)
qed

lemma zip_bytes_first:
  "take (length (local_header_bytes e) + length (entry_data e)) (zip_bytes (e # es))
    = local_header_bytes e @ entry_data e"
  by (simp add: zip_bytes_def)

text \<open>
  Claim C2. Whenever \<open>buildEpubBuffer\<close> returns an archive, whatever the document, the
  resources and the cover, the first entry handed to the writer is \<open>mimetype\<close> and the
  archive starts with its local header (signature, version 20, flags 0, method 0 for
  stored, time and date 0, checksum, both sizes 20, name length 8, extra-field length 0),
  the name and the 20 bytes \<open>application/epub+zip\<close>.
\<close>

theorem mimetype_entry_first:
  assumes "buildEpubBuffer uuid options = Inr out"
  shows "hd (epub_entries uuid options) = mimetype_entry
       \<and> take 58 out =
     [0x50, 0x4B, 0x03, 0x04, 0x14, 0, 0, 0, 0, 0, 0, 0, 0, 0, 0x6F, 0x61, 0xAB, 0x2C,
      20, 0, 0, 0, 20, 0, 0, 0, 8, 0, 0, 0]
     @ ascii ''mimetype'' @ ascii ''application/epub+zip''"
proof -
  obtain rest where e: "epub_entries uuid options = mimetype_entry # rest"
    using epub_entries_first by blast
  from assms have out: "out = zip_bytes (mimetype_entry # rest)"
    using buildZip_Inr [of "mimetype_entry # rest" out] by (simp add: buildEpubBuffer_def e)
  have l: "length (local_header_bytes mimetype_entry) + length (entry_data mimetype_entry) = 58"
    by (simp add: local_header_mimetype) (simp add: mimetype_entry_def ascii_def)
  have d: "entry_data mimetype_entry = ascii ''application/epub+zip''"
    by (simp add: mimetype_entry_def)
  have "take (length (local_header_bytes mimetype_entry) + length (entry_data mimetype_entry))
          (zip_bytes (mimetype_entry # rest))
        = local_header_bytes mimetype_entry @ entry_data mimetype_entry"
    by (rule zip_bytes_first)
  then have "take 58 out = local_header_bytes mimetype_entry @ entry_data mimetype_entry"
    by (simp only: l out)
  then show ?thesis
    by (simp only: local_header_mimetype d append_assoc e list.sel simp_thms)
qed

subsection \<open>A run of the builder on a concrete document\<close>

lemma zip_loop_ok_bounded:
  "list_all (\<lambda>e. name_length e \<le> 65535 \<and> data_length e \<le> b) es \<Longrightarrow>
   off + length es * (65581 + b) \<le> 4294967295 \<Longrightarrow> zip_loop_ok es off"
proof (induction es arbitrary: off)
  case Nil
  then show ?case by simp
next
  case (Cons e es)
  from Cons.prems have e: "name_length e \<le> 65535" "data_length e \<le> b"
    and es: "list_all (\<lambda>e. name_length e \<le> 65535 \<and> data_length e \<le> b) es"
    and o: "off + (65581 + b) + length es * (65581 + b) \<le> 4294967295"
    by simp_all
  have "(off + local_record_size e) + length es * (65581 + b) \<le> 4294967295"
    using e o by (simp add: local_record_size_def)
  then have "zip_loop_ok es (off + local_record_size e)"
    by (rule Cons.IH [OF es])
  then show ?case using e o by simp
qed

lemma sum_list_bounded:
  "list_all (\<lambda>e. f e \<le> (c::nat)) es \<Longrightarrow> sum_list (map f es) \<le> length es * c"
  by (induction es) auto

lemma zip_ok_bounded:
  assumes "list_all (\<lambda>e. name_length e \<le> 65535 \<and> data_length e \<le> b) es"
    and "length es * (65581 + b) \<le> 4294967295"
  shows "zip_ok es"
proof -
  have l: "zip_loop_ok es 0"
    using zip_loop_ok_bounded [OF assms(1), of 0] assms(2) by simp
  have "list_all (\<lambda>e. central_record_size e \<le> 65581 + b) es"
    using assms(1) by (induction es) (auto simp add: central_record_size_def)
  then have c: "sum_list (map central_record_size es) \<le> length es * (65581 + b)"
    by (rule sum_list_bounded)
  have "list_all (\<lambda>e. local_record_size e \<le> 65581 + b) es"
    using assms(1) by (induction es) (auto simp add: local_record_size_def)
  then have s: "sum_list (map local_record_size es) \<le> length es * (65581 + b)"
    by (rule sum_list_bounded)
  have "length es * 65581 \<le> length es * (65581 + b)"
    by (rule mult_le_mono2) simp
  then have n: "length es \<le> 65535"
    using assms(2) by arith
  show ?thesis
    using l c s n assms(2) by (simp add: zip_ok_def)
qed

lemma name_length_le: "3 * length (entry_name e) \<le> n \<Longrightarrow> name_length e \<le> n"
  using length_utf8_encode_le [of "entry_name e"] by (simp add: name_length_def)

lemma utf8_data_length_le:
  "3 * length s \<le> n \<Longrightarrow> data_length \<lparr>entry_name = nm, entry_data = utf8_encode s\<rparr> \<le> n"
  using length_utf8_encode_le [of s] by (simp add: data_length_def)

lemma example_options_fields:
  "opt_title example_options = Some (js ''Hello'')"
  "opt_author example_options = Some (js ''Site'')"
  "opt_language example_options = Some (js ''fr'')"
  "opt_bodyHtml example_options = Some (js ''<p>Hi</p>'')"
  "opt_resources example_options = Some []"
  "opt_coverResource example_options = None"
  "opt_includeTitleInContent example_options = Some True"
  by (simp_all add: example_options_def)

lemma example_metadata:
  "epub_title example_options = js ''Hello''"
  "epub_author example_options = js ''Site''"
  "epub_language example_options = js ''fr''"
  by (simp_all add: epub_title_def epub_author_def epub_language_def example_options_fields
      js_or_def js_trim_def js_def is_js_whitespace_def)

lemma example_escapes:
  "escapeHtml (js ''Hello'') = js ''Hello''"
  "escapeHtml (js ''Site'') = js ''Site''"
  "escapeHtml (js ''fr'') = js ''fr''"
  by (simp_all add: escapeHtml_def replace_char_def js_def)

lemma example_epub_entries:
  "epub_entries example_uuid example_options =
     [\<lparr>entry_name = js ''mimetype'', entry_data = utf8_encode (js ''application/epub+zip'')\<rparr>,
      \<lparr>entry_name = js ''META-INF/container.xml'', entry_data = utf8_encode containerXml_text\<rparr>,
      \<lparr>entry_name = js ''OEBPS/content.opf'',
       entry_data = utf8_encode
         (contentOpf_text example_uuid (js ''Hello'') (js ''fr'') (js ''Site'') None [])\<rparr>,
      \<lparr>entry_name = js ''OEBPS/nav.xhtml'',
       entry_data = utf8_encode (navXhtml_text (js ''Hello'') (js ''fr''))\<rparr>,
      \<lparr>entry_name = js ''OEBPS/chapter.xhtml'',
       entry_data = utf8_encode
         (chapterXhtml_text (js ''Hello'') (js ''fr'') True (js ''<p>Hi</p>''))\<rparr>]"
  by (simp add: epub_entries_def Let_def example_options_fields example_metadata js_or_def)

lemma example_text_lengths:
  "length containerXml_text \<le> 3000"
  "length (contentOpf_text example_uuid (js ''Hello'') (js ''fr'') (js ''Site'') None []) \<le> 3000"
  "length (navXhtml_text (js ''Hello'') (js ''fr'')) \<le> 3000"
  "length (chapterXhtml_text (js ''Hello'') (js ''fr'') True (js ''<p>Hi</p>'')) \<le> 3000"
  by (simp_all add: containerXml_text_def contentOpf_text_def navXhtml_text_def
      chapterXhtml_text_def example_escapes coverMeta_def coverManifest_def coverSpine_def
      manifestBlock_def example_uuid_def)

lemma example_epub_ok: "zip_ok (epub_entries example_uuid example_options)"
proof -
  have "list_all (\<lambda>e. name_length e \<le> 65535 \<and> data_length e \<le> 9000)
          (epub_entries example_uuid example_options)"
    using example_text_lengths
    by (simp add: example_epub_entries name_length_le utf8_data_length_le)
  then show ?thesis
    by (rule zip_ok_bounded) (simp add: example_epub_entries)
qed

theorem mimetype_entry_first_witness:
  "buildEpubBuffer example_uuid example_options
     = Inr (zip_bytes (epub_entries example_uuid example_options))
   \<and> hd (epub_entries example_uuid example_options) = mimetype_entry
   \<and> take 58 (zip_bytes (epub_entries example_uuid example_options)) =
     [0x50, 0x4B, 0x03, 0x04, 0x14, 0, 0, 0, 0, 0, 0, 0, 0, 0, 0x6F, 0x61, 0xAB, 0x2C,
      20, 0, 0, 0, 20, 0, 0, 0, 8, 0, 0, 0]
     @ ascii ''mimetype'' @ ascii ''application/epub+zip''"
proof -
  have b: "buildEpubBuffer example_uuid example_options
             = Inr (zip_bytes (epub_entries example_uuid example_options))"
    by (simp add: buildEpubBuffer_def buildZip_eq example_epub_ok)
  from mimetype_entry_first [OF b] b show ?thesis
    by (simp only: simp_thms)
qed

subsection \<open>Defaults of the metadata\<close>

lemma js_trim_eq_Nil: "js_trim s = [] \<longleftrightarrow> list_all is_js_whitespace s"
proof -
  let ?d = "dropWhile is_js_whitespace s"
  have "js_trim s = [] \<longleftrightarrow> (\<forall>x\<in>set ?d. is_js_whitespace x)"
    by (simp add: js_trim_def)
  also have "\<dots> \<longleftrightarrow> ?d = []"
  proof
    assume all: "\<forall>x\<in>set ?d. is_js_whitespace x"
    show "?d = []"
    proof (rule ccontr)
      assume ne: "?d \<noteq> []"
      then have "\<not> is_js_whitespace (hd ?d)" by (rule hd_dropWhile)
      moreover have "hd ?d \<in> set ?d" using ne by simp
      ultimately show False using all by blast
    qed
  next
    assume e: "?d = []"
    show "\<forall>x\<in>set ?d. is_js_whitespace x" unfolding e by simp
  qed
  also have "\<dots> \<longleftrightarrow> list_all is_js_whitespace s"
    by (simp add: list_all_iff)
  finally show ?thesis .
qed

lemma js_or_trim:
  "d \<noteq> [] \<Longrightarrow>
   js_or (map_option js_trim x) d =
     (case x of None \<Rightarrow> d | Some s \<Rightarrow> if list_all is_js_whitespace s then d else js_trim s)"
  by (simp add: js_or_def js_trim_eq_Nil split: option.splits)

lemma js_or_trim_nonempty: "d \<noteq> [] \<Longrightarrow> js_or (map_option js_trim x) d \<noteq> []"
  by (simp add: js_or_def split: option.splits)

lemma js_nonempty: "s \<noteq> [] \<Longrightarrow> js s \<noteq> []"
  by (simp add: js_def)

lemma replace_char_eq_Nil: "r \<noteq> [] \<Longrightarrow> replace_char c r s = [] \<longleftrightarrow> s = []"
  by (cases s) (simp_all add: replace_char_def)

lemma escapeHtml_eq_Nil: "escapeHtml s = [] \<longleftrightarrow> s = []"
  by (simp add: escapeHtml_def replace_char_eq_Nil js_nonempty)

subsection \<open>Where the metadata appear\<close>

lemma sublist_in_tail: "sublist xs ys \<Longrightarrow> sublist xs (ps @ ys)"
  by (metis append_assoc sublist_def)

lemma sublist_at_head: "sublist (a @ e @ b) (a @ e @ b @ ss)"
  by (rule prefix_imp_sublist) simp

lemma contentOpf_text_metadata:
  "sublist (js ''    <dc:title>'' @ escapeHtml title @ js ''</dc:title>\<newline>'')
     (contentOpf_text uuid title language author cover rs)
   \<and> sublist (js ''    <dc:language>'' @ escapeHtml language @ js ''</dc:language>\<newline>'')
     (contentOpf_text uuid title language author cover rs)
   \<and> sublist (js ''    <dc:creator>'' @ escapeHtml author @ js ''</dc:creator>\<newline>'')
     (contentOpf_text uuid title language author cover rs)"
  unfolding contentOpf_text_def
  apply (intro conjI)
    apply (rule sublist_in_tail, rule sublist_in_tail, rule sublist_in_tail, rule sublist_in_tail,
      rule sublist_in_tail, rule sublist_in_tail, rule sublist_at_head)
   apply (rule sublist_in_tail, rule sublist_in_tail, rule sublist_in_tail, rule sublist_in_tail,
      rule sublist_in_tail, rule sublist_in_tail, rule sublist_in_tail, rule sublist_in_tail,
      rule sublist_in_tail, rule sublist_at_head)
  apply (rule sublist_in_tail, rule sublist_in_tail, rule sublist_in_tail, rule sublist_in_tail,
      rule sublist_in_tail, rule sublist_in_tail, rule sublist_in_tail, rule sublist_in_tail,
      rule sublist_in_tail, rule sublist_in_tail, rule sublist_in_tail, rule sublist_in_tail,
      rule sublist_at_head)
  done


lemma navXhtml_text_metadata:
  \<open>sublist (js ''<html xmlns="http://www.w3.org/1999/xhtml" xmlns:epub="http://www.idpf.org/2007/ops" lang="''
            @ escapeHtml language @ js ''">\<newline>'')
     (navXhtml_text title language)
   \<and> sublist (js ''    <title>'' @ escapeHtml title @ js ''</title>\<newline>'')
     (navXhtml_text title language)
   \<and> sublist (js ''        <li><a href="chapter.xhtml">'' @ escapeHtml title @ js ''</a></li>\<newline>'')
     (navXhtml_text title language)\<close>
  unfolding navXhtml_text_def
  apply (intro conjI)
    apply (rule sublist_in_tail, rule sublist_at_head)
   apply (rule sublist_in_tail, rule sublist_in_tail, rule sublist_in_tail, rule sublist_in_tail, rule sublist_in_tail, rule sublist_at_head)
  apply (rule sublist_in_tail, rule sublist_in_tail, rule sublist_in_tail, rule sublist_in_tail, rule sublist_in_tail, rule sublist_in_tail, rule sublist_in_tail, rule sublist_in_tail, rule sublist_in_tail, rule sublist_in_tail, rule sublist_in_tail, rule sublist_in_tail, rule sublist_at_head)
  done

lemma chapterXhtml_text_metadata:
  \<open>sublist (js ''<html xmlns="http://www.w3.org/1999/xhtml" lang="'' @ escapeHtml language @ js ''">\<newline>'')
     (chapterXhtml_text title language incl body)
   \<and> sublist (js ''    <title>'' @ escapeHtml title @ js ''</title>\<newline>'')
     (chapterXhtml_text title language incl body)\<close>
  unfolding chapterXhtml_text_def
  apply (intro conjI)
   apply (rule sublist_in_tail, rule sublist_at_head)
  apply (rule sublist_in_tail, rule sublist_in_tail, rule sublist_in_tail, rule sublist_in_tail, rule sublist_in_tail, rule sublist_at_head)
  done

lemma chapterXhtml_text_heading:
  \<open>sublist (js ''      <h1>'' @ escapeHtml title @ js ''</h1>\<newline>'')
     (chapterXhtml_text title language True body)\<close>
  unfolding chapterXhtml_text_def if_True append_assoc
  by (rule sublist_in_tail, rule sublist_in_tail, rule sublist_in_tail, rule sublist_in_tail, rule sublist_in_tail, rule sublist_in_tail, rule sublist_in_tail, rule sublist_in_tail, rule sublist_in_tail, rule sublist_in_tail, rule sublist_in_tail, rule sublist_in_tail, rule sublist_in_tail, rule sublist_in_tail, rule sublist_in_tail, rule sublist_in_tail, rule sublist_at_head)

lemma chapterXhtml_text_body: "sublist body (chapterXhtml_text title language incl body)"
  unfolding chapterXhtml_text_def
  by (rule sublist_in_tail, rule sublist_in_tail, rule sublist_in_tail, rule sublist_in_tail,
      rule sublist_in_tail, rule sublist_in_tail, rule sublist_in_tail, rule sublist_in_tail,
      rule sublist_in_tail, rule sublist_in_tail, rule sublist_in_tail, rule sublist_in_tail,
      rule sublist_in_tail, rule sublist_in_tail, rule sublist_in_tail, rule sublist_in_tail,
      rule sublist_in_tail, rule sublist_append_rightI)

lemma epub_entries_documents:
  "\<exists>opf nav chapter cover rs.
     epub_entries uuid options ! 2 =
       \<lparr>entry_name = js ''OEBPS/content.opf'', entry_data = utf8_encode opf\<rparr>
     \<and> opf = contentOpf_text uuid (epub_title options) (epub_language options)
               (epub_author options) cover rs
     \<and> epub_entries uuid options ! 3 =
       \<lparr>entry_name = js ''OEBPS/nav.xhtml'', entry_data = utf8_encode nav\<rparr>
     \<and> nav = navXhtml_text (epub_title options) (epub_language options)
     \<and> \<lparr>entry_name = js ''OEBPS/chapter.xhtml'', entry_data = utf8_encode chapter\<rparr>
         \<in> set (epub_entries uuid options)
     \<and> chapter = chapterXhtml_text (epub_title options) (epub_language options)
          (opt_includeTitleInContent options \<noteq> Some False) (js_or (opt_bodyHtml options) [])"
proof -
  have i: "(case opt_includeTitleInContent options of None \<Rightarrow> True | Some b \<Rightarrow> b)
           = (opt_includeTitleInContent options \<noteq> Some False)"
    by (auto split: option.splits)
  show ?thesis
    by (cases "opt_coverResource options") (auto simp add: epub_entries_def Let_def i)
qed

subsection \<open>The order of the entries\<close>

text \<open>
  Claim C4 says that the cover-only document follows the content document. With a cover
  the builder puts \<open>OEBPS/cover.xhtml\<close> before \<open>OEBPS/chapter.xhtml\<close>: on the
  document below the names are in the first order, not in the order of the claim.
\<close>

theorem entries_order_counterexample:
  "map entry_name (epub_entries example_uuid example_options_cover) =
     [js ''mimetype'', js ''META-INF/container.xml'', js ''OEBPS/content.opf'',
      js ''OEBPS/nav.xhtml'', js ''OEBPS/cover.xhtml'', js ''OEBPS/chapter.xhtml'',
      js ''OEBPS/images/cover.jpg'', js ''OEBPS/images/a.png'']
   \<and> map entry_name (epub_entries example_uuid example_options_cover) \<noteq>
     [js ''mimetype'', js ''META-INF/container.xml'', js ''OEBPS/content.opf'',
      js ''OEBPS/nav.xhtml'', js ''OEBPS/chapter.xhtml'', js ''OEBPS/cover.xhtml'',
      js ''OEBPS/images/cover.jpg'', js ''OEBPS/images/a.png'']"
proof -
  have n: "map entry_name (epub_entries example_uuid example_options_cover) =
     [js ''mimetype'', js ''META-INF/container.xml'', js ''OEBPS/content.opf'',
      js ''OEBPS/nav.xhtml'', js ''OEBPS/cover.xhtml'', js ''OEBPS/chapter.xhtml'',
      js ''OEBPS/'' @ js ''images/cover.jpg'', js ''OEBPS/'' @ js ''images/a.png'']"
    by (simp add: epub_entries_def Let_def example_options_cover_def example_options_def
        example_cover_def example_image_def)
  have a: "js ''OEBPS/'' @ js ''images/cover.jpg'' = js ''OEBPS/images/cover.jpg''"
          "js ''OEBPS/'' @ js ''images/a.png'' = js ''OEBPS/images/a.png''"
    by (simp_all add: js_def)
  have d: "js ''OEBPS/cover.xhtml'' \<noteq> js ''OEBPS/chapter.xhtml''"
    by (simp add: js_def)
  show ?thesis
    unfolding n a using d by simp
qed

text \<open>
  Claim C4, amended. The entries are, in this order: \<open>mimetype\<close> with the literal
  \<open>application/epub+zip\<close>, the container descriptor, the package document, the
  navigation document, then the cover-only document exactly when a cover resource is
  given, then the content document, whose text contains the body markup, then the raw
  bytes of the cover resource (when given) and of every resource, each named
  \<open>OEBPS/\<close> followed by its \<open>href\<close>.
\<close>

theorem entries_order:
  "map entry_name (epub_entries uuid options) =
     [js ''mimetype'', js ''META-INF/container.xml'', js ''OEBPS/content.opf'',
      js ''OEBPS/nav.xhtml'']
     @ (case opt_coverResource options of Some cover \<Rightarrow> [js ''OEBPS/cover.xhtml''] | None \<Rightarrow> [])
     @ [js ''OEBPS/chapter.xhtml'']
     @ map (\<lambda>r. js ''OEBPS/'' @ res_href r)
         ((case opt_coverResource options of Some cover \<Rightarrow> [cover] | None \<Rightarrow> [])
          @ (case opt_resources options of Some rs \<Rightarrow> rs | None \<Rightarrow> []))
   \<and> entry_data (epub_entries uuid options ! 0) = ascii ''application/epub+zip''
   \<and> (\<exists>text.
         entry_data (epub_entries uuid options !
                      (case opt_coverResource options of Some cover \<Rightarrow> 5 | None \<Rightarrow> 4))
           = utf8_encode text
         \<and> sublist (case opt_bodyHtml options of Some b \<Rightarrow> b | None \<Rightarrow> []) text)
   \<and> map entry_data
         (drop (case opt_coverResource options of Some cover \<Rightarrow> 6 | None \<Rightarrow> 5)
            (epub_entries uuid options))
       = map res_data
         ((case opt_coverResource options of Some cover \<Rightarrow> [cover] | None \<Rightarrow> [])
          @ (case opt_resources options of Some rs \<Rightarrow> rs | None \<Rightarrow> []))"
proof -
  have b: "js_or (opt_bodyHtml options) [] = (case opt_bodyHtml options of Some b \<Rightarrow> b | None \<Rightarrow> [])"
    by (simp add: js_or_def split: option.splits)
  have c: "sublist (case opt_bodyHtml options of Some b \<Rightarrow> b | None \<Rightarrow> [])
     (chapterXhtml_text (epub_title options) (epub_language options)
       (case opt_includeTitleInContent options of None \<Rightarrow> True | Some b \<Rightarrow> b)
       (case opt_bodyHtml options of Some b \<Rightarrow> b | None \<Rightarrow> []))"
    by (rule chapterXhtml_text_body)
  show ?thesis
  proof (cases "opt_coverResource options")
    case None
    then show ?thesis
      using c by (auto simp add: epub_entries_def Let_def b utf8_mimetype_data comp_def)
  next
    case (Some cover)
    then show ?thesis
      using c by (auto simp add: epub_entries_def Let_def b utf8_mimetype_data comp_def)
  qed
qed


subsection \<open>What \<open>escapeHtml\<close> returns\<close>

lemma replace_char_Cons:
  "replace_char c r (x # xs) = (if x = c then r else [x]) @ replace_char c r xs"
  by (simp add: replace_char_def)

lemma replace_char_append:
  "replace_char c r (xs @ ys) = replace_char c r xs @ replace_char c r ys"
  by (simp add: replace_char_def)

lemma replace_char_Nil: "replace_char c r [] = []"
  by (simp add: replace_char_def)

lemma escapeHtml_Nil: "escapeHtml [] = []"
  by (simp add: escapeHtml_def replace_char_def)

lemma escapeHtml_single: "escapeHtml [c] = html_entity c"
  by (simp add: escapeHtml_def html_entity_def replace_char_def js_def)

lemma escapeHtml_append: "escapeHtml (xs @ ys) = escapeHtml xs @ escapeHtml ys"
  by (simp add: escapeHtml_def replace_char_append)

lemma escapeHtml_is_html_escaped: "escapeHtml s = html_escaped s"
proof (induction s)
  case Nil
  then show ?case by (simp add: escapeHtml_Nil html_escaped_def)
next
  case (Cons c s)
  have "escapeHtml (c # s) = escapeHtml [c] @ escapeHtml s"
    using escapeHtml_append [of "[c]" s] by simp
  then show ?case
    using Cons.IH by (simp add: escapeHtml_single html_escaped_def)
qed

lemma html_entity_no_markup: "set (html_entity c) \<inter> {0x3C, 0x3E, 0x22, 0x27} = {}"
  by (simp add: html_entity_def js_def)

lemma html_escaped_no_markup: "set (html_escaped s) \<inter> {0x3C, 0x3E, 0x22, 0x27} = {}"
proof -
  have "set (html_escaped s) = (\<Union>c\<in>set s. set (html_entity c))"
    by (simp add: html_escaped_def)
  then show ?thesis
    using html_entity_no_markup by blast
qed

subsection \<open>The metadata in the documents\<close>

text \<open>
  Claim C10. A title that is missing, empty or white space only becomes \<open>Article\<close>, an
  author \<open>Inconnu\<close>, a language \<open>en\<close>; any other value is trimmed. The three values
  are never empty. \<open>escapeHtml\<close> replaces each of \<open>& < > " '\<close> by its entity and keeps
  every other character, so the escaped values are not empty either and contain none of
  \<open>< > " '\<close>. These escaped values are what the package document (title, language,
  creator), the navigation document (language, title, entry of the table of contents) and
  the content document (language, title, and the heading unless it is switched off)
  contain.
\<close>

theorem metadata_defaults:
  \<open>epub_title options =
     (case opt_title options of None \<Rightarrow> js ''Article''
      | Some s \<Rightarrow> if list_all is_js_whitespace s then js ''Article'' else js_trim s)
   \<and> epub_author options =
     (case opt_author options of None \<Rightarrow> js ''Inconnu''
      | Some s \<Rightarrow> if list_all is_js_whitespace s then js ''Inconnu'' else js_trim s)
   \<and> epub_language options =
     (case opt_language options of None \<Rightarrow> js ''en''
      | Some s \<Rightarrow> if list_all is_js_whitespace s then js ''en'' else js_trim s)
   \<and> epub_title options \<noteq> [] \<and> epub_author options \<noteq> [] \<and> epub_language options \<noteq> []
   \<and> escapeHtml (epub_title options) = html_escaped (epub_title options)
   \<and> escapeHtml (epub_author options) = html_escaped (epub_author options)
   \<and> escapeHtml (epub_language options) = html_escaped (epub_language options)
   \<and> html_escaped (epub_title options) \<noteq> []
   \<and> html_escaped (epub_author options) \<noteq> []
   \<and> html_escaped (epub_language options) \<noteq> []
   \<and> set (html_escaped (epub_title options)) \<inter> {0x3C, 0x3E, 0x22, 0x27} = {}
   \<and> set (html_escaped (epub_author options)) \<inter> {0x3C, 0x3E, 0x22, 0x27} = {}
   \<and> set (html_escaped (epub_language options)) \<inter> {0x3C, 0x3E, 0x22, 0x27} = {}
   \<and> (\<exists>opf nav chapter.
        epub_entries uuid options ! 2 =
          \<lparr>entry_name = js ''OEBPS/content.opf'', entry_data = utf8_encode opf\<rparr>
      \<and> epub_entries uuid options ! 3 =
          \<lparr>entry_name = js ''OEBPS/nav.xhtml'', entry_data = utf8_encode nav\<rparr>
      \<and> \<lparr>entry_name = js ''OEBPS/chapter.xhtml'', entry_data = utf8_encode chapter\<rparr>
          \<in> set (epub_entries uuid options)
      \<and> sublist (js ''    <dc:title>'' @ html_escaped (epub_title options) @ js ''</dc:title>\<newline>'') opf
      \<and> sublist (js ''    <dc:language>'' @ html_escaped (epub_language options)
                  @ js ''</dc:language>\<newline>'') opf
      \<and> sublist (js ''    <dc:creator>'' @ html_escaped (epub_author options)
                  @ js ''</dc:creator>\<newline>'') opf
      \<and> sublist (js ''<html xmlns="http://www.w3.org/1999/xhtml" xmlns:epub="http://www.idpf.org/2007/ops" lang="''
                  @ html_escaped (epub_language options) @ js ''">\<newline>'') nav
      \<and> sublist (js ''    <title>'' @ html_escaped (epub_title options) @ js ''</title>\<newline>'') nav
      \<and> sublist (js ''        <li><a href="chapter.xhtml">'' @ html_escaped (epub_title options)
                  @ js ''</a></li>\<newline>'') nav
      \<and> sublist (js ''<html xmlns="http://www.w3.org/1999/xhtml" lang="''
                  @ html_escaped (epub_language options) @ js ''">\<newline>'') chapter
      \<and> sublist (js ''    <title>'' @ html_escaped (epub_title options) @ js ''</title>\<newline>'') chapter
      \<and> (opt_includeTitleInContent options \<noteq> Some False \<longrightarrow>
           sublist (js ''      <h1>'' @ html_escaped (epub_title options) @ js ''</h1>\<newline>'') chapter))\<close>
proof -
  have d: "js ''Article'' \<noteq> []" "js ''Inconnu'' \<noteq> []" "js ''en'' \<noteq> []"
    by (simp_all add: js_def)
  have t: "epub_title options =
     (case opt_title options of None \<Rightarrow> js ''Article''
      | Some s \<Rightarrow> if list_all is_js_whitespace s then js ''Article'' else js_trim s)"
    unfolding epub_title_def by (rule js_or_trim) (rule d)
  have a: "epub_author options =
     (case opt_author options of None \<Rightarrow> js ''Inconnu''
      | Some s \<Rightarrow> if list_all is_js_whitespace s then js ''Inconnu'' else js_trim s)"
    unfolding epub_author_def by (rule js_or_trim) (rule d)
  have l: "epub_language options =
     (case opt_language options of None \<Rightarrow> js ''en''
      | Some s \<Rightarrow> if list_all is_js_whitespace s then js ''en'' else js_trim s)"
    unfolding epub_language_def by (rule js_or_trim) (rule d)
  have ne: "epub_title options \<noteq> []" "epub_author options \<noteq> []" "epub_language options \<noteq> []"
    by (simp_all add: epub_title_def epub_author_def epub_language_def js_or_trim_nonempty d)
  have esc: "escapeHtml (epub_title options) = html_escaped (epub_title options)"
    "escapeHtml (epub_author options) = html_escaped (epub_author options)"
    "escapeHtml (epub_language options) = html_escaped (epub_language options)"
    by (rule escapeHtml_is_html_escaped)+
  have nee: "html_escaped (epub_title options) \<noteq> []" "html_escaped (epub_author options) \<noteq> []"
    "html_escaped (epub_language options) \<noteq> []"
    using ne by (simp_all add: escapeHtml_is_html_escaped [symmetric] escapeHtml_eq_Nil)
  have nm: "set (html_escaped (epub_title options)) \<inter> {0x3C, 0x3E, 0x22, 0x27} = {}"
    "set (html_escaped (epub_author options)) \<inter> {0x3C, 0x3E, 0x22, 0x27} = {}"
    "set (html_escaped (epub_language options)) \<inter> {0x3C, 0x3E, 0x22, 0x27} = {}"
    by (rule html_escaped_no_markup)+
  obtain opf nav chp cover rs where e:
    "epub_entries uuid options ! 2 =
       \<lparr>entry_name = js ''OEBPS/content.opf'', entry_data = utf8_encode opf\<rparr>"
    "opf = contentOpf_text uuid (epub_title options) (epub_language options)
               (epub_author options) cover rs"
    "epub_entries uuid options ! 3 =
       \<lparr>entry_name = js ''OEBPS/nav.xhtml'', entry_data = utf8_encode nav\<rparr>"
    "nav = navXhtml_text (epub_title options) (epub_language options)"
    "\<lparr>entry_name = js ''OEBPS/chapter.xhtml'', entry_data = utf8_encode chp\<rparr>
         \<in> set (epub_entries uuid options)"
    "chp = chapterXhtml_text (epub_title options) (epub_language options)
          (opt_includeTitleInContent options \<noteq> Some False) (js_or (opt_bodyHtml options) [])"
    using epub_entries_documents [of uuid options] by blast
  have h: "opt_includeTitleInContent options \<noteq> Some False \<longrightarrow>
           sublist (js ''      <h1>'' @ escapeHtml (epub_title options) @ js ''</h1>\<newline>'') chp"
    using chapterXhtml_text_heading by (simp add: e(6))
  have docs: "\<exists>opf nav chapter.
        epub_entries uuid options ! 2 =
          \<lparr>entry_name = js ''OEBPS/content.opf'', entry_data = utf8_encode opf\<rparr>
      \<and> epub_entries uuid options ! 3 =
          \<lparr>entry_name = js ''OEBPS/nav.xhtml'', entry_data = utf8_encode nav\<rparr>
      \<and> \<lparr>entry_name = js ''OEBPS/chapter.xhtml'', entry_data = utf8_encode chapter\<rparr>
          \<in> set (epub_entries uuid options)
      \<and> sublist (js ''    <dc:title>'' @ escapeHtml (epub_title options) @ js ''</dc:title>\<newline>'') opf
      \<and> sublist (js ''    <dc:language>'' @ escapeHtml (epub_language options)
                  @ js ''</dc:language>\<newline>'') opf
      \<and> sublist (js ''    <dc:creator>'' @ escapeHtml (epub_author options)
                  @ js ''</dc:creator>\<newline>'') opf
      \<and> sublist (js ''<html xmlns=\"http://www.w3.org/1999/xhtml\" xmlns:epub=\"http://www.idpf.org/2007/ops\" lang=\"''
                  @ escapeHtml (epub_language options) @ js ''\">\<newline>'') nav
      \<and> sublist (js ''    <title>'' @ escapeHtml (epub_title options) @ js ''</title>\<newline>'') nav
      \<and> sublist (js ''        <li><a href=\"chapter.xhtml\">'' @ escapeHtml (epub_title options)
                  @ js ''</a></li>\<newline>'') nav
      \<and> sublist (js ''<html xmlns=\"http://www.w3.org/1999/xhtml\" lang=\"''
                  @ escapeHtml (epub_language options) @ js ''\">\<newline>'') chapter
      \<and> sublist (js ''    <title>'' @ escapeHtml (epub_title options) @ js ''</title>\<newline>'') chapter
      \<and> (opt_includeTitleInContent options \<noteq> Some False \<longrightarrow>
           sublist (js ''      <h1>'' @ escapeHtml (epub_title options) @ js ''</h1>\<newline>'') chapter)"
    using e(1,3,5) h contentOpf_text_metadata [of "epub_title options" uuid "epub_language options"
        "epub_author options" cover rs]
      navXhtml_text_metadata [of "epub_language options" "epub_title options"]
      chapterXhtml_text_metadata [of "epub_language options" "epub_title options"
        "opt_includeTitleInContent options \<noteq> Some False" "js_or (opt_bodyHtml options) []"]
    unfolding e(2,4,6) [symmetric]
    by blast
  note docs' = docs [unfolded esc]
  from t a l ne esc nee nm docs' show ?thesis
    by (intro conjI)
qed

lemma example_blank_metadata:
  "epub_title example_options_blank = js ''Article''"
  "epub_author example_options_blank = js ''Inconnu''"
  "epub_language example_options_blank = js ''en''"
  by (simp_all add: epub_title_def epub_author_def epub_language_def example_options_blank_def
      js_or_def js_trim_def is_js_whitespace_def)

lemma example_blank_escapes:
  "html_escaped (js ''Article'') = js ''Article''"
  "html_escaped (js ''Inconnu'') = js ''Inconnu''"
  "html_escaped (js ''en'') = js ''en''"
  by (simp_all add: html_escaped_def html_entity_def js_def)

lemma example_escape_metadata:
  \<open>epub_title example_options_escape = js ''Q&A <"it'' @ [0x27] @ js ''s">''\<close>
  "epub_author example_options_escape = js ''Inconnu''"
  "epub_language example_options_escape = js ''en''"
  by (simp_all add: epub_title_def epub_author_def epub_language_def example_options_escape_def
      js_or_def js_trim_def is_js_whitespace_def js_def)

lemma example_escape_escapes:
  \<open>html_escaped (js ''Q&A <"it'' @ [0x27] @ js ''s">'') = js ''Q&amp;A &lt;&quot;it&#39;s&quot;&gt;''\<close>
  by (simp add: html_escaped_def html_entity_def js_def)

theorem metadata_defaults_witness:
  \<open>(epub_title example_options_blank = js ''Article''
    \<and> epub_author example_options_blank = js ''Inconnu''
    \<and> epub_language example_options_blank = js ''en''
    \<and> opt_includeTitleInContent example_options_blank \<noteq> Some False
    \<and> (\<exists>opf nav chapter.
        epub_entries example_uuid example_options_blank ! 2 =
          \<lparr>entry_name = js ''OEBPS/content.opf'', entry_data = utf8_encode opf\<rparr>
      \<and> epub_entries example_uuid example_options_blank ! 3 =
          \<lparr>entry_name = js ''OEBPS/nav.xhtml'', entry_data = utf8_encode nav\<rparr>
      \<and> \<lparr>entry_name = js ''OEBPS/chapter.xhtml'', entry_data = utf8_encode chapter\<rparr>
          \<in> set (epub_entries example_uuid example_options_blank)
      \<and> sublist (js ''    <dc:title>'' @ js ''Article'' @ js ''</dc:title>\<newline>'') opf
      \<and> sublist (js ''    <dc:language>'' @ js ''en'' @ js ''</dc:language>\<newline>'') opf
      \<and> sublist (js ''    <dc:creator>'' @ js ''Inconnu'' @ js ''</dc:creator>\<newline>'') opf
      \<and> sublist (js ''    <title>'' @ js ''Article'' @ js ''</title>\<newline>'') nav
      \<and> sublist (js ''    <title>'' @ js ''Article'' @ js ''</title>\<newline>'') chapter
      \<and> sublist (js ''      <h1>'' @ js ''Article'' @ js ''</h1>\<newline>'') chapter))
   \<and> (epub_title example_options_escape = js ''Q&A <"it'' @ [0x27] @ js ''s">''
    \<and> escapeHtml (epub_title example_options_escape) = js ''Q&amp;A &lt;&quot;it&#39;s&quot;&gt;''
    \<and> opt_includeTitleInContent example_options_escape \<noteq> Some False
    \<and> (\<exists>opf nav chapter.
        epub_entries example_uuid example_options_escape ! 2 =
          \<lparr>entry_name = js ''OEBPS/content.opf'', entry_data = utf8_encode opf\<rparr>
      \<and> epub_entries example_uuid example_options_escape ! 3 =
          \<lparr>entry_name = js ''OEBPS/nav.xhtml'', entry_data = utf8_encode nav\<rparr>
      \<and> \<lparr>entry_name = js ''OEBPS/chapter.xhtml'', entry_data = utf8_encode chapter\<rparr>
          \<in> set (epub_entries example_uuid example_options_escape)
      \<and> sublist (js ''    <dc:title>'' @ js ''Q&amp;A &lt;&quot;it&#39;s&quot;&gt;''
                  @ js ''</dc:title>\<newline>'') opf
      \<and> sublist (js ''    <dc:language>'' @ js ''en'' @ js ''</dc:language>\<newline>'') opf
      \<and> sublist (js ''    <dc:creator>'' @ js ''Inconnu'' @ js ''</dc:creator>\<newline>'') opf
      \<and> sublist (js ''    <title>'' @ js ''Q&amp;A &lt;&quot;it&#39;s&quot;&gt;''
                  @ js ''</title>\<newline>'') nav
      \<and> sublist (js ''        <li><a href="chapter.xhtml">''
                  @ js ''Q&amp;A &lt;&quot;it&#39;s&quot;&gt;'' @ js ''</a></li>\<newline>'') nav
      \<and> sublist (js ''    <title>'' @ js ''Q&amp;A &lt;&quot;it&#39;s&quot;&gt;''
                  @ js ''</title>\<newline>'') chapter
      \<and> sublist (js ''      <h1>'' @ js ''Q&amp;A &lt;&quot;it&#39;s&quot;&gt;''
                  @ js ''</h1>\<newline>'') chapter))\<close>
proof -
  have ib: "opt_includeTitleInContent example_options_blank \<noteq> Some False"
    by (simp add: example_options_blank_def)
  have ie: "opt_includeTitleInContent example_options_escape \<noteq> Some False"
    by (simp add: example_options_escape_def)
  note blank = metadata_defaults [of example_options_blank example_uuid,
      THEN conjunct2, THEN conjunct2, THEN conjunct2, THEN conjunct2, THEN conjunct2, THEN conjunct2, THEN conjunct2, THEN conjunct2, THEN conjunct2, THEN conjunct2, THEN conjunct2, THEN conjunct2, THEN conjunct2, THEN conjunct2, THEN conjunct2]
  note escape = metadata_defaults [of example_options_escape example_uuid,
      THEN conjunct2, THEN conjunct2, THEN conjunct2, THEN conjunct2, THEN conjunct2, THEN conjunct2, THEN conjunct2, THEN conjunct2, THEN conjunct2, THEN conjunct2, THEN conjunct2, THEN conjunct2, THEN conjunct2, THEN conjunct2, THEN conjunct2]
  note escaped = metadata_defaults [of example_options_escape example_uuid,
      THEN conjunct2, THEN conjunct2, THEN conjunct2, THEN conjunct2, THEN conjunct2, THEN conjunct2, THEN conjunct1]
  have eb: "escapeHtml (epub_title example_options_escape) = js ''Q&amp;A &lt;&quot;it&#39;s&quot;&gt;''"
    using escaped unfolding example_escape_metadata example_escape_escapes .
  have db: "\<exists>opf nav chapter.
        epub_entries example_uuid example_options_blank ! 2 =
          \<lparr>entry_name = js ''OEBPS/content.opf'', entry_data = utf8_encode opf\<rparr>
      \<and> epub_entries example_uuid example_options_blank ! 3 =
          \<lparr>entry_name = js ''OEBPS/nav.xhtml'', entry_data = utf8_encode nav\<rparr>
      \<and> \<lparr>entry_name = js ''OEBPS/chapter.xhtml'', entry_data = utf8_encode chapter\<rparr>
          \<in> set (epub_entries example_uuid example_options_blank)
      \<and> sublist (js ''    <dc:title>'' @ js ''Article'' @ js ''</dc:title>\<newline>'') opf
      \<and> sublist (js ''    <dc:language>'' @ js ''en'' @ js ''</dc:language>\<newline>'') opf
      \<and> sublist (js ''    <dc:creator>'' @ js ''Inconnu'' @ js ''</dc:creator>\<newline>'') opf
      \<and> sublist (js ''    <title>'' @ js ''Article'' @ js ''</title>\<newline>'') nav
      \<and> sublist (js ''    <title>'' @ js ''Article'' @ js ''</title>\<newline>'') chapter
      \<and> sublist (js ''      <h1>'' @ js ''Article'' @ js ''</h1>\<newline>'') chapter"
    using blank ib unfolding example_blank_metadata example_blank_escapes
    by blast
  have de: "\<exists>opf nav chapter.
        epub_entries example_uuid example_options_escape ! 2 =
          \<lparr>entry_name = js ''OEBPS/content.opf'', entry_data = utf8_encode opf\<rparr>
      \<and> epub_entries example_uuid example_options_escape ! 3 =
          \<lparr>entry_name = js ''OEBPS/nav.xhtml'', entry_data = utf8_encode nav\<rparr>
      \<and> \<lparr>entry_name = js ''OEBPS/chapter.xhtml'', entry_data = utf8_encode chapter\<rparr>
          \<in> set (epub_entries example_uuid example_options_escape)
      \<and> sublist (js ''    <dc:title>'' @ js ''Q&amp;A &lt;&quot;it&#39;s&quot;&gt;''
                  @ js ''</dc:title>\<newline>'') opf
      \<and> sublist (js ''    <dc:language>'' @ js ''en'' @ js ''</dc:language>\<newline>'') opf
      \<and> sublist (js ''    <dc:creator>'' @ js ''Inconnu'' @ js ''</dc:creator>\<newline>'') opf
      \<and> sublist (js ''    <title>'' @ js ''Q&amp;A &lt;&quot;it&#39;s&quot;&gt;''
                  @ js ''</title>\<newline>'') nav
      \<and> sublist (js ''        <li><a href=\"chapter.xhtml\">''
                  @ js ''Q&amp;A &lt;&quot;it&#39;s&quot;&gt;'' @ js ''</a></li>\<newline>'') nav
      \<and> sublist (js ''    <title>'' @ js ''Q&amp;A &lt;&quot;it&#39;s&quot;&gt;''
                  @ js ''</title>\<newline>'') chapter
      \<and> sublist (js ''      <h1>'' @ js ''Q&amp;A &lt;&quot;it&#39;s&quot;&gt;''
                  @ js ''</h1>\<newline>'') chapter"
    using escape ie unfolding example_escape_metadata example_blank_escapes example_escape_escapes
    by blast
  from ib ie eb db de show ?thesis
    by (simp only: example_blank_metadata example_escape_metadata simp_thms)
qed

section \<open>The SMTP client\<close>

subsection \<open>What handling an event leaves unchanged\<close>

lemma processLine_fields:
  "processLine line c = (c', r) \<Longrightarrow>
     c_socket c' = c_socket c \<and> c_buffer c' = c_buffer c \<and> c_options c' = c_options c"
  by (auto simp add: processLine_def Let_def split: option.splits if_splits prod.splits)

lemma handleData_loop_socket:
  "handleData_loop buf c settled = (c', r) \<Longrightarrow>
     c_socket c' = c_socket c \<and> c_options c' = c_options c"
proof (induction buf c settled arbitrary: c' r rule: handleData_loop.induct)
  case (1 buf c settled)
  show ?case
  proof (cases "indexOf 0x0A buf")
    case None
    with "1.prems" show ?thesis
      by (auto simp add: handleData_loop.simps [of buf c settled])
  next
    case (Some index)
    obtain c1 r1 where p: "processLine (strip_line_end (take (index + 1) buf))
                             (c\<lparr>c_buffer := drop (index + 1) buf\<rparr>) = (c1, r1)"
      by (cases "processLine (strip_line_end (take (index + 1) buf))
                             (c\<lparr>c_buffer := drop (index + 1) buf\<rparr>)")
    from "1.prems" Some p
    have l: "handleData_loop (drop (index + 1) buf) c1 (if settled = None then r1 else settled) = (c', r)"
      by (simp add: handleData_loop.simps [of buf c settled] Let_def)
    have "c_socket c' = c_socket c1 \<and> c_options c' = c_options c1"
      using "1.IH" [OF Some refl refl refl p [symmetric] l] .
    then show ?thesis
      using processLine_fields [OF p] by simp
  qed
qed

lemma deliver_socket:
  "deliver ev c = (c', r) \<Longrightarrow> c_socket c' = c_socket c \<and> c_options c' = c_options c"
  by (cases ev)
    (auto simp add: handleData_def failPending_def timeout_fired_def
      dest: handleData_loop_socket split: if_splits)

lemma await_settlement_socket:
  "await_settlement c evs = (r, c', evs') \<Longrightarrow>
     c_socket c' = c_socket c \<and> c_options c' = c_options c"
proof (induction evs arbitrary: c)
  case Nil
  then show ?case
    by (auto simp add: timeout_fired_def split: if_splits)
next
  case (Cons ev evs)
  obtain c1 r1 where d: "deliver ev c = (c1, r1)"
    by (cases "deliver ev c")
  show ?case
  proof (cases r1)
    case None
    with Cons.prems d have "await_settlement c1 evs = (r, c', evs')"
      by simp
    then show ?thesis
      using Cons.IH deliver_socket [OF d] by simp
  next
    case (Some a)
    with Cons.prems d show ?thesis
      using deliver_socket [OF d] by auto
  qed
qed

lemma readResponse_socket:
  "readResponse expected c evs = (r, c', evs') \<Longrightarrow>
     c_socket c' = c_socket c \<and> c_options c' = c_options c"
  by (auto simp add: readResponse_def Let_def dest: await_settlement_socket
      split: if_splits list.splits option.splits)


lemma sendCommand_Inr_socket:
  assumes "sendCommand command expected c evs = (Inr x, c', evs')"
  shows "\<exists>sock. c_socket c = Some sock
           \<and> c_socket c' = Some (sock\<lparr>tr_written := tr_written sock @ [command @ CRLF]\<rparr>)"
  using assms
  by (auto simp add: sendCommand_def client_write_def dest: readResponse_socket
      split: option.splits)

subsection \<open>The expected codes only decide how a response is reported\<close>

lemma check_expected_Inl [simp]: "check_expected ex (Inl e) = Inl e"
  by (simp add: check_expected_def)

lemma processLine_unsettled:
  "c_pending c = Some ex \<Longrightarrow> processLine line c = (c', None) \<Longrightarrow> c_pending c' = Some ex"
  by (auto simp add: processLine_def Let_def split: option.splits if_splits prod.splits)

lemma processLine_expected:
  assumes "c_pending c = Some None"
  shows "processLine line (c\<lparr>c_pending := Some ex\<rparr>) =
           (case processLine line c of
              (c', None) \<Rightarrow> (c'\<lparr>c_pending := Some ex\<rparr>, None)
            | (c', Some r) \<Rightarrow> (c', Some (check_expected ex r)))"
  using assms
  by (cases ex)
    (auto simp add: processLine_def Let_def check_expected_def split: option.splits prod.splits)

lemma update_pending_buffer:
  "c\<lparr>c_pending := p, c_buffer := b\<rparr> = c\<lparr>c_buffer := b, c_pending := p\<rparr>"
  by simp

lemma handleData_loop_settled:
  "handleData_loop buf c (Some a) = (fst (handleData_loop buf c s), Some a)"
proof (induction buf arbitrary: c s rule: length_induct)
  case (1 buf)
  show ?case
  proof (cases "indexOf 0x0A buf")
    case None
    then show ?thesis
      by (simp add: handleData_loop.simps [of buf c])
  next
    case (Some index)
    then have "0x0A \<in> set buf"
      by (simp add: indexOf_def split: if_splits)
    then have shorter: "length (drop (index + 1) buf) < length buf"
      by (auto dest: length_pos_if_in_set)
    obtain c1 r1 where p: "processLine (strip_line_end (take (index + 1) buf))
                             (c\<lparr>c_buffer := drop (index + 1) buf\<rparr>) = (c1, r1)"
      by (cases "processLine (strip_line_end (take (index + 1) buf))
                             (c\<lparr>c_buffer := drop (index + 1) buf\<rparr>)")
    have "handleData_loop (drop (index + 1) buf) c1 (Some a) =
            (fst (handleData_loop (drop (index + 1) buf) c1 (if s = None then r1 else s)), Some a)"
      using "1.IH" shorter by blast
    then show ?thesis
      using Some p by (simp add: handleData_loop.simps [of buf c] Let_def)
  qed
qed

lemma handleData_loop_unsettled:
  "c_pending c = Some ex \<Longrightarrow> handleData_loop buf c None = (c', None) \<Longrightarrow> c_pending c' = Some ex"
proof (induction buf arbitrary: c rule: length_induct)
  case (1 buf)
  show ?case
  proof (cases "indexOf 0x0A buf")
    case None
    with "1.prems" show ?thesis
      by (auto simp add: handleData_loop.simps [of buf c])
  next
    case (Some index)
    then have "0x0A \<in> set buf"
      by (simp add: indexOf_def split: if_splits)
    then have shorter: "length (drop (index + 1) buf) < length buf"
      by (auto dest: length_pos_if_in_set)
    obtain c1 r1 where p: "processLine (strip_line_end (take (index + 1) buf))
                             (c\<lparr>c_buffer := drop (index + 1) buf\<rparr>) = (c1, r1)"
      by (cases "processLine (strip_line_end (take (index + 1) buf))
                             (c\<lparr>c_buffer := drop (index + 1) buf\<rparr>)")
    from "1.prems"(2) Some p
    have l: "handleData_loop (drop (index + 1) buf) c1 r1 = (c', None)"
      by (simp add: handleData_loop.simps [of buf c] Let_def)
    show ?thesis
    proof (cases r1)
      case None
      have "c_pending c1 = Some ex"
        using processLine_unsettled [of "c\<lparr>c_buffer := drop (index + 1) buf\<rparr>" ex _ c1] p None
          "1.prems"(1) by simp
      then show ?thesis
        using "1.IH" shorter l None by blast
    next
      case (Some a)
      have "handleData_loop (drop (index + 1) buf) c1 (Some a)
              = (fst (handleData_loop (drop (index + 1) buf) c1 None), Some a)"
        by (rule handleData_loop_settled)
      with l Some show ?thesis
        by simp
    qed
  qed
qed

lemma handleData_loop_expected:
  assumes "c_pending c = Some None"
  shows "handleData_loop buf (c\<lparr>c_pending := Some ex\<rparr>) None =
           (case handleData_loop buf c None of
              (c', None) \<Rightarrow> (c'\<lparr>c_pending := Some ex\<rparr>, None)
            | (c', Some r) \<Rightarrow> (c', Some (check_expected ex r)))"
  using assms
proof (induction buf arbitrary: c rule: length_induct)
  case (1 buf)
  show ?case
  proof (cases "indexOf 0x0A buf")
    case None
    then show ?thesis
      by (simp add: handleData_loop.simps [of buf])
  next
    case (Some index)
    let ?rest = "drop (index + 1) buf"
    let ?line = "strip_line_end (take (index + 1) buf)"
    from Some have "0x0A \<in> set buf"
      by (simp add: indexOf_def split: if_splits)
    then have shorter: "length ?rest < length buf"
      by (auto dest: length_pos_if_in_set)
    obtain c1 r1 where p: "processLine ?line (c\<lparr>c_buffer := ?rest\<rparr>) = (c1, r1)"
      by (cases "processLine ?line (c\<lparr>c_buffer := ?rest\<rparr>)")
    have pc: "c_pending (c\<lparr>c_buffer := ?rest\<rparr>) = Some None"
      using "1.prems" by simp
    have pe: "processLine ?line (c\<lparr>c_pending := Some ex, c_buffer := ?rest\<rparr>) =
           (case r1 of None \<Rightarrow> (c1\<lparr>c_pending := Some ex\<rparr>, None)
            | Some r \<Rightarrow> (c1, Some (check_expected ex r)))"
      using processLine_expected [OF pc, of ?line ex] p
      by (simp add: update_pending_buffer split: option.splits)
    have lhs: "handleData_loop buf (c\<lparr>c_pending := Some ex\<rparr>) None =
      (case r1 of
         None \<Rightarrow> handleData_loop ?rest (c1\<lparr>c_pending := Some ex\<rparr>) None
       | Some r \<Rightarrow> handleData_loop ?rest c1 (Some (check_expected ex r)))"
      using Some pe
      by (simp add: handleData_loop.simps [of buf "c\<lparr>c_pending := Some ex\<rparr>"] Let_def
          split: option.splits)
    have rhs: "handleData_loop buf c None = handleData_loop ?rest c1 r1"
      using Some p by (simp add: handleData_loop.simps [of buf c] Let_def)
    show ?thesis
    proof (cases r1)
      case None
      have "c_pending c1 = Some None"
        using processLine_unsettled [OF pc, of ?line c1] p None by simp
      then have "handleData_loop ?rest (c1\<lparr>c_pending := Some ex\<rparr>) None =
           (case handleData_loop ?rest c1 None of
              (c', None) \<Rightarrow> (c'\<lparr>c_pending := Some ex\<rparr>, None)
            | (c', Some r) \<Rightarrow> (c', Some (check_expected ex r)))"
        using "1.IH" shorter by blast
      then show ?thesis
        unfolding lhs rhs None by simp
    next
      case (Some r)
      have s1: "handleData_loop ?rest c1 (Some x) = (fst (handleData_loop ?rest c1 None), Some x)"
        for x by (rule handleData_loop_settled)
      show ?thesis
        unfolding lhs rhs Some option.case s1 by simp
    qed
  qed
qed

lemma deliver_unsettled:
  "c_pending c = Some ex \<Longrightarrow> deliver ev c = (c', None) \<Longrightarrow> c_pending c' = Some ex"
  by (cases ev)
    (auto simp add: handleData_def failPending_def timeout_fired_def
      dest: handleData_loop_unsettled split: if_splits)

lemma deliver_expected:
  assumes "c_pending c = Some None"
  shows "deliver ev (c\<lparr>c_pending := Some ex\<rparr>) =
           (case deliver ev c of
              (c', None) \<Rightarrow> (c'\<lparr>c_pending := Some ex\<rparr>, None)
            | (c', Some r) \<Rightarrow> (c', Some (check_expected ex r)))"
proof (cases ev)
  case (Data chunk)
  then show ?thesis
    using handleData_loop_expected [OF assms, of "c_buffer c @ chunk" ex]
    by (simp add: handleData_def)
next
  case (SocketError e)
  then show ?thesis
    using assms by (simp add: failPending_def)
next
  case Timeout
  then show ?thesis
    using assms by (simp add: timeout_fired_def)
qed

lemma await_settlement_expected:
  assumes "c_pending c = Some None"
  shows "await_settlement (c\<lparr>c_pending := Some ex\<rparr>) evs =
           (case await_settlement c evs of (r, c', evs') \<Rightarrow> (check_expected ex r, c', evs'))"
  using assms
proof (induction evs arbitrary: c)
  case Nil
  then show ?case
    by (simp add: timeout_fired_def)
next
  case (Cons ev evs)
  obtain c1 r1 where d: "deliver ev c = (c1, r1)"
    by (cases "deliver ev c")
  show ?case
  proof (cases r1)
    case None
    have "c_pending c1 = Some None"
      using deliver_unsettled [OF Cons.prems, of ev c1] d None by simp
    then show ?thesis
      using Cons.IH [of c1] deliver_expected [OF Cons.prems, of ev ex] d None by simp
  next
    case (Some r)
    then show ?thesis
      using deliver_expected [OF Cons.prems, of ev ex] d by simp
  qed
qed

lemma readResponse_expected:
  "readResponse ex c evs =
     (case readResponse None c evs of (r, c', evs') \<Rightarrow> (check_expected ex r, c', evs'))"
proof (cases "c_pending c = None \<and> c_queuedResponses c = []")
  case True
  then show ?thesis
    using await_settlement_expected [of "c\<lparr>c_pending := Some None\<rparr>" ex evs]
    by (simp add: readResponse_def)
next
  case False
  then show ?thesis
    by (auto simp add: readResponse_def Let_def check_expected_def split: list.splits option.splits)
qed

lemma sendCommand_expected:
  "sendCommand command ex c evs =
     (case sendCommand command None c evs of (r, c', evs') \<Rightarrow> (check_expected ex r, c', evs'))"
  using readResponse_expected [of ex _ evs]
  by (simp add: sendCommand_def split: sum.splits)

section \<open>Dot-stuffing\<close>












section \<open>Sending a message\<close>




text \<open>
  Claim C6. When the response to \<open>MAIL FROM\<close> is accepted and the final response of the
  server to \<open>RCPT TO\<close> has a code other than 250 and 251 (550 for example), \<open>sendMail\<close>
  fails with the error \<open>Unexpected SMTP response (code).\<close> that holds this code. The
  socket has then received the two commands \<open>MAIL FROM\<close> and \<open>RCPT TO\<close> and nothing
  else: \<open>DATA\<close> is not written, and the socket is neither ended nor destroyed.
\<close>

theorem sendMail_rejected_recipient:
  assumes mail: "sendCommand (js ''MAIL FROM:<'' @ mail_from input @ js ''>'') (Some [250]) c evs
                   = (Inr r1, c1, evs1)"
    and rcpt: "sendCommand (js ''RCPT TO:<'' @ mail_to input @ js ''>'') None c1 evs1
                   = (Inr r2, c2, evs2)"
    and code: "resp_code r2 \<notin> {250, 251}"
  shows "sendMail input c evs =
           (Inl (Error (js ''Unexpected SMTP response ('' @ number_toString (resp_code r2)
                        @ js '').'')), c2, evs2)
       \<and> (\<exists>sock. c_socket c = Some sock
            \<and> c_socket c2 = Some (sock\<lparr>tr_written := tr_written sock @
                 [js ''MAIL FROM:<'' @ mail_from input @ js ''>'' @ CRLF,
                  js ''RCPT TO:<'' @ mail_to input @ js ''>'' @ CRLF]\<rparr>))"
proof -
  have "sendCommand (js ''RCPT TO:<'' @ mail_to input @ js ''>'') (Some [250, 251]) c1 evs1 =
          (check_expected (Some [250, 251]) (Inr r2), c2, evs2)"
    using sendCommand_expected [of "js ''RCPT TO:<'' @ mail_to input @ js ''>''" "Some [250, 251]" c1 evs1]
      rcpt by simp
  moreover have "check_expected (Some [250, 251]) (Inr r2) =
                   Inl (Error (js ''Unexpected SMTP response ('' @ number_toString (resp_code r2)
                        @ js '').''))"
    using code by (simp add: check_expected_def unexpected_response_def)
  ultimately have r: "sendMail input c evs =
           (Inl (Error (js ''Unexpected SMTP response ('' @ number_toString (resp_code r2)
                        @ js '').'')), c2, evs2)"
    using mail by (simp add: sendMail_def smtp_then_def)
  from sendCommand_Inr_socket [OF mail] obtain sock where
    a0: "c_socket c = Some sock"
    and a1: "c_socket c1 = Some (sock\<lparr>tr_written := tr_written sock @
                [(js ''MAIL FROM:<'' @ mail_from input @ js ''>'') @ CRLF]\<rparr>)"
    by blast
  from sendCommand_Inr_socket [OF rcpt] a1 have
    "c_socket c2 = Some (sock\<lparr>tr_written := tr_written sock @
                [(js ''MAIL FROM:<'' @ mail_from input @ js ''>'') @ CRLF,
                 (js ''RCPT TO:<'' @ mail_to input @ js ''>'') @ CRLF]\<rparr>)"
    by auto
  with a0 r show ?thesis
    by simp
qed

section \<open>Leaving the session\<close>


section \<open>Opening the session\<close>








section \<open>Concrete sessions\<close>

lemmas smtp_eval =
  sendCommand_def sendData_def client_write_def readResponse_def handleData_def
  handleData_loop.simps indexOf_def strip_line_end_def processLine_def match_response_line_def
  is_digit_def is_line_terminator_def Let_def failPending_def timeout_fired_def
  unexpected_response_def number_toString.simps CRLF_def js_def smtp_then_def smtp_done_def
  new_SmtpClient_def fresh_socket_def example_smtp_options_def example_connected_def
  example_mail_def

lemma example_mail_from:
  "sendCommand (js ''MAIL FROM:<'' @ mail_from example_mail @ js ''>'') (Some [250])
     example_connected events_rejected_recipient =
   (Inr \<lparr>resp_code = 250, resp_lines = [js ''250 OK'']\<rparr>,
    example_connected\<lparr>c_socket := Some ((fresh_socket example_smtp_options)
       \<lparr>tr_written := [js ''MAIL FROM:<me@example.org>'' @ CRLF]\<rparr>)\<rparr>,
    [Data (js ''550 mailbox unavailable'' @ CRLF)])"
  by (simp add: smtp_eval events_rejected_recipient_def)

lemma example_rcpt_to:
  "sendCommand (js ''RCPT TO:<'' @ mail_to example_mail @ js ''>'') None
     (example_connected\<lparr>c_socket := Some ((fresh_socket example_smtp_options)
       \<lparr>tr_written := [js ''MAIL FROM:<me@example.org>'' @ CRLF]\<rparr>)\<rparr>)
     [Data (js ''550 mailbox unavailable'' @ CRLF)] =
   (Inr \<lparr>resp_code = 550, resp_lines = [js ''550 mailbox unavailable'']\<rparr>,
    example_connected\<lparr>c_socket := Some ((fresh_socket example_smtp_options)
       \<lparr>tr_written := [js ''MAIL FROM:<me@example.org>'' @ CRLF,
                        js ''RCPT TO:<reader@kindle.com>'' @ CRLF]\<rparr>)\<rparr>,
    [])"
  by (simp add: smtp_eval)

theorem sendMail_rejected_recipient_witness:
  "sendMail example_mail example_connected events_rejected_recipient =
     (Inl (Error (js ''Unexpected SMTP response (550).'')),
      example_connected\<lparr>c_socket := Some ((fresh_socket example_smtp_options)
       \<lparr>tr_written := [js ''MAIL FROM:<me@example.org>'' @ CRLF,
                        js ''RCPT TO:<reader@kindle.com>'' @ CRLF]\<rparr>)\<rparr>,
      [])
   \<and> c_socket example_connected = Some (fresh_socket example_smtp_options)
   \<and> tr_ended (fresh_socket example_smtp_options) = False
   \<and> tr_destroyed (fresh_socket example_smtp_options) = False"
proof -
  have code: "resp_code \<lparr>resp_code = 550, resp_lines = [js ''550 mailbox unavailable'']\<rparr>
                \<notin> {250, 251}"
    by simp
  have n: "js ''Unexpected SMTP response ('' @ number_toString 550 @ js '').''
             = js ''Unexpected SMTP response (550).''"
    by (simp add: number_toString.simps js_def)
  have s: "c_socket example_connected = Some (fresh_socket example_smtp_options)"
    by (simp add: example_connected_def)
  have f: "tr_ended (fresh_socket example_smtp_options) = False"
    "tr_destroyed (fresh_socket example_smtp_options) = False"
    by (simp_all add: fresh_socket_def)
  from sendMail_rejected_recipient [OF example_mail_from example_rcpt_to code]
  have "sendMail example_mail example_connected events_rejected_recipient =
     (Inl (Error (js ''Unexpected SMTP response (550).'')),
      example_connected\<lparr>c_socket := Some ((fresh_socket example_smtp_options)
       \<lparr>tr_written := [js ''MAIL FROM:<me@example.org>'' @ CRLF,
                        js ''RCPT TO:<reader@kindle.com>'' @ CRLF]\<rparr>)\<rparr>,
      [])"
    by (simp add: n)
  with s f show ?thesis
    by simp
qed





section \<open>Dot-stuffing at send time\<close>







section \<open>What varies between two runs of the message encoder\<close>

lemma js_join_Cons2: "js_join sep (a # b # ls) = a @ sep @ js_join sep (b # ls)"
  by simp

lemma mimeLines_Date:
  "mimeLines nfkd uuid now input = Inr ls \<Longrightarrow>
     \<exists>l rest. ls = (js ''Date: '' @ now) # l # rest
       \<and> (\<forall>now'. mimeLines nfkd uuid now' input = Inr ((js ''Date: '' @ now') # l # rest))"
  by (auto simp add: mimeLines_def Let_def split: sum.splits)

lemma example_filename:
  "encodeFilenameHeader id (js ''Hello.epub'') = Inr (js ''Hello.epub'', js ''Hello.epub'')"
  by (simp add: encodeFilenameHeader_def sanitizeHeader_def toAsciiFilename_def
      encodeRFC5987ValueChars_def uri_unreserved_def js_trim_def is_js_whitespace_def
      js_def Let_def)

lemma example_mimeLines_Inr:
  "\<exists>ls. mimeLines id uuid now example_mime_input = Inr ls"
  using example_filename
  by (simp add: mimeLines_def Let_def example_mime_input_def js_def)

text \<open>
  Claim C9 says that only the random boundary varies between two runs of
  \<open>buildMimeMessage\<close>. The header \<open>Date\<close> holds the text of the clock at the time of
  the call: with the same identifier and the same input, two readings of the clock give two
  different messages.
\<close>

theorem date_header_varies:
  "buildMimeMessage id example_uuid example_now example_mime_input
     \<noteq> buildMimeMessage id example_uuid example_later example_mime_input"
proof -
  obtain ls where ls: "mimeLines id example_uuid example_now example_mime_input = Inr ls"
    using example_mimeLines_Inr by blast
  from mimeLines_Date [OF ls] obtain l rest where
    a: "ls = (js ''Date: '' @ example_now) # l # rest" and
    b: "mimeLines id example_uuid example_later example_mime_input
          = Inr ((js ''Date: '' @ example_later) # l # rest)"
    by blast
  have "example_now @ CRLF @ js_join CRLF (l # rest)
      \<noteq> example_later @ CRLF @ js_join CRLF (l # rest)"
    by (simp add: example_now_def example_later_def js_def)
  then show ?thesis
    by (simp add: buildMimeMessage_def ls a b js_join_Cons2)
qed

text \<open>
  Claim C9, amended. Two runs of \<open>buildMimeMessage\<close> on the same input either fail with
  the same error or give 22 lines each, in the same order, joined with CRLF. The lines are
  equal at every index but that of the header \<open>Date\<close> (0), which holds the text of the
  clock, and those that hold the boundary made of the random identifier (5, 7, 13 and 20).
  The line of the attachment (18) is in both the base64 text of the buffer in chunks of 76
  characters.
\<close>

theorem mimeLines_vary_in_date_and_boundary:
  \<open>(case mimeLines nfkd uuid_a now_a input of
      Inl e \<Rightarrow> mimeLines nfkd uuid_b now_b input = Inl e
    | Inr ls1 \<Rightarrow>
        (\<exists>ls2. mimeLines nfkd uuid_b now_b input = Inr ls2
           \<and> length ls1 = 22 \<and> length ls2 = 22
           \<and> (\<forall>i \<in> {1, 2, 3, 4, 6, 8, 9, 10, 11, 12, 14, 15, 16, 17, 18, 19, 21}.
                 ls1 ! i = ls2 ! i)
           \<and> ls1 ! 18 = chunkBase64 (base64_encode (mi_epubBuffer input))
           \<and> ls1 ! 0 = js ''Date: '' @ now_a \<and> ls2 ! 0 = js ''Date: '' @ now_b
           \<and> ls1 ! 5 = js ''Content-Type: multipart/mixed; boundary="raycast-'' @ uuid_a @ js ''"''
           \<and> ls2 ! 5 = js ''Content-Type: multipart/mixed; boundary="raycast-'' @ uuid_b @ js ''"''
           \<and> ls1 ! 7 = js ''--raycast-'' @ uuid_a \<and> ls2 ! 7 = js ''--raycast-'' @ uuid_b
           \<and> ls1 ! 13 = js ''--raycast-'' @ uuid_a \<and> ls2 ! 13 = js ''--raycast-'' @ uuid_b
           \<and> ls1 ! 20 = js ''--raycast-'' @ uuid_a @ js ''--''
           \<and> ls2 ! 20 = js ''--raycast-'' @ uuid_b @ js ''--''))
   \<and> buildMimeMessage nfkd uuid_a now_a input =
       (case mimeLines nfkd uuid_a now_a input of
          Inl e \<Rightarrow> Inl e
        | Inr ls \<Rightarrow> Inr (js_join CRLF ls))\<close>
  by (simp add: mimeLines_def buildMimeMessage_def Let_def js_def split: sum.splits)

theorem mimeLines_vary_in_date_and_boundary_witness:
  "isl (mimeLines id example_uuid example_now example_mime_input) = False
   \<and> isl (mimeLines id example_uuid2 example_later example_mime_input) = False
   \<and> length (projr (mimeLines id example_uuid example_now example_mime_input)) = 22
   \<and> projr (mimeLines id example_uuid example_now example_mime_input) ! 3
       = projr (mimeLines id example_uuid2 example_later example_mime_input) ! 3
   \<and> projr (mimeLines id example_uuid example_now example_mime_input) ! 18
       = projr (mimeLines id example_uuid2 example_later example_mime_input) ! 18
   \<and> projr (mimeLines id example_uuid example_now example_mime_input) ! 0
       = js ''Date: '' @ example_now
   \<and> projr (mimeLines id example_uuid2 example_later example_mime_input) ! 0
       = js ''Date: '' @ example_later
   \<and> projr (mimeLines id example_uuid example_now example_mime_input) ! 7
       = js ''--raycast-'' @ example_uuid
   \<and> projr (mimeLines id example_uuid2 example_later example_mime_input) ! 7
       = js ''--raycast-'' @ example_uuid2"
proof -
  obtain ls1 where ls1: "mimeLines id example_uuid example_now example_mime_input = Inr ls1"
    using example_mimeLines_Inr by blast
  note t = mimeLines_vary_in_date_and_boundary [where nfkd = id and uuid_a = example_uuid
      and now_a = example_now and input = example_mime_input and uuid_b = example_uuid2
      and now_b = example_later, THEN conjunct1]
  from t obtain ls2 where
    ls2: "mimeLines id example_uuid2 example_later example_mime_input = Inr ls2" and
    len: "length ls1 = 22" and
    same: "\<forall>i \<in> {1, 2, 3, 4, 6, 8, 9, 10, 11, 12, 14, 15, 16, 17, 18, 19, 21}.
             ls1 ! i = ls2 ! i" and
    d1: "ls1 ! 0 = js ''Date: '' @ example_now" and
    d2: "ls2 ! 0 = js ''Date: '' @ example_later" and
    b1: "ls1 ! 7 = js ''--raycast-'' @ example_uuid" and
    b2: "ls2 ! 7 = js ''--raycast-'' @ example_uuid2"
    unfolding ls1 sum.case by blast
  from same have s3: "ls1 ! 3 = ls2 ! 3" and s18: "ls1 ! 18 = ls2 ! 18"
    by simp_all
  show ?thesis
    unfolding ls1 ls2 using len s3 s18 d1 d2 b1 b2 by simp
qed


end
